theory Spec2Isabelle
  imports Main "HOL-Library.Word"
begin

section \<open>Account backup and restore (cli/account_command.go)\<close>

text \<open>
  The two orchestrators \<open>backupAction\<close> and \<open>restoreAction\<close> of \<open>actCmd\<close> are
  embedded as functions that take the environment (the external collaborators)
  and the command's fields, and return the outcome of the run together with the
  trace of every effect the run performed, in order.
\<close>

subsection \<open>Errors\<close>

text \<open>
  Go error values. \<open>ErrMemoryStreamNotSupported\<close> is the sentinel of package jsm.
  \<open>ErrorString\<close> is an error made from a message alone (\<open>fmt.Errorf\<close> without
  an error operand, \<open>errors.New\<close>, or any error of a collaborator).
  \<open>ErrorfW fmt a e\<close> is \<open>fmt.Errorf(fmt, a, e)\<close> where the verb of \<open>e\<close> is
  \<open>%w\<close> (the new error wraps \<open>e\<close>); \<open>ErrorfS fmt a e\<close> is the same call where the
  verb of \<open>e\<close> is \<open>%s\<close> (only the text of \<open>e\<close> is kept, nothing is wrapped).
\<close>

datatype error =
    ErrMemoryStreamNotSupported
  | ErrorString string
  | ErrorfW string string error
  | ErrorfS string string error

text \<open>\<open>errors.Unwrap\<close> and \<open>errors.Is\<close>: the chain of wrapped errors is searched.\<close>

fun Unwrap :: "error \<Rightarrow> error option" where
  "Unwrap (ErrorfW f a e) = Some e"
| "Unwrap _ = None"

fun errors_Is :: "error \<Rightarrow> error \<Rightarrow> bool" where
  "errors_Is (ErrorfW f a e) target = (ErrorfW f a e = target \<or> errors_Is e target)"
| "errors_Is e target = (e = target)"

text \<open>\<open>errors.Is(err, target)\<close> on an error variable that may be nil.\<close>

fun errors_Is_opt :: "error option \<Rightarrow> error \<Rightarrow> bool" where
  "errors_Is_opt None target = False"
| "errors_Is_opt (Some e) target = errors_Is e target"

subsection \<open>Data\<close>

text \<open>The fields of \<open>actCmd\<close> that the two orchestrators read.\<close>

record actCmd =
  backupDirectory :: string
  healthCheck :: bool
  snapShotConsumers :: bool
  force :: bool
  failOnWarn :: bool
  placementCluster :: string
  placementTags :: "string list"

text \<open>A stream handle (\<open>*jsm.Stream\<close>): \<open>Name()\<close> is all the orchestrator reads from it
  without a call to the service.\<close>

datatype Stream = Stream (Stream_Name: string)

text \<open>The two fields of \<open>api.StreamState\<close> that are read: \<open>Bytes\<close> is a \<open>uint64\<close>,
  \<open>Consumers\<close> an \<open>int\<close> (64 bits wide here).\<close>

record StreamState =
  Bytes :: "64 word"
  Consumers :: "64 word"

text \<open>An entry returned by \<open>os.ReadDir\<close>.\<close>

record DirEntry =
  DirEntry_Name :: string
  IsDir :: bool

text \<open>
  The argument list of one call of \<open>backupStream\<close>, by position, as line 126
  passes it. The declaration of \<open>backupStream\<close> is not part of the source file, so
  the fields are named after what the call site hands over: the stream handle;
  the constant \<open>false\<close>, which is the progress switch that line 184 sets to
  \<open>false\<close> for the restore as well; the flag \<open>consumers\<close> (line 62); the flag
  \<open>check\<close>, "Checks the Stream for health prior to backup" (line 61); the
  target directory.
\<close>

record backupStream_args =
  streamHandle :: Stream
  progress :: bool
  includeConsumers :: bool
  verifyHealth :: bool
  targetDir :: string

text \<open>The fields of \<open>streamCmd\<close> that \<open>restoreAction\<close> sets; the receiver of the
  single-stream restore.\<close>

record streamCmd =
  msgID :: int
  showProgress :: bool
  s_placementCluster :: string
  s_placementTags :: "string list"
  s_backupDirectory :: string

text \<open>Arguments of the print calls. \<open>humanize.Comma\<close> and \<open>humanize.IBytes\<close> are kept
  as they are called.\<close>

datatype arg =
    ArgString string
  | ArgError error
  | ArgInt int
  | ArgComma int
  | ArgIBytes "64 word"

subsection \<open>Effects\<close>

text \<open>
  Every effect of a run is one event of its trace: what was printed, and each call
  of an external collaborator with its arguments and what it returned.
\<close>

datatype event =
    Printf string "arg list"
  | Println
  | Call_prepareHelper "error option"
  | Call_Streams "Stream list \<times> error option"
  | Call_LatestState Stream "StreamState \<times> error option"
  | Call_askConfirmation string bool "bool \<times> error option"
  | Call_MkdirAll string nat "error option"
  | Call_backupStream backupStream_args "error option"
  | Call_StreamNames "string list \<times> error option"
  | Call_ReadDir string "DirEntry list \<times> error option"
  | Call_Stat string "error option"
  | Call_restoreAction streamCmd "error option"

text \<open>
  The external collaborators. Each one answers as a function of its arguments and
  of the trace so far, so that an answer may depend on everything that happened
  earlier in the run (a directory that was created, a stream that was restored).
  \<open>filepath_Join\<close> is the pure function \<open>filepath.Join\<close>.
\<close>

record env =
  prepareHelper :: "event list \<Rightarrow> error option"
  mgr_Streams :: "event list \<Rightarrow> Stream list \<times> error option"
  LatestState :: "event list \<Rightarrow> Stream \<Rightarrow> StreamState \<times> error option"
  askConfirmation :: "event list \<Rightarrow> string \<Rightarrow> bool \<Rightarrow> bool \<times> error option"
  os_MkdirAll :: "event list \<Rightarrow> string \<Rightarrow> nat \<Rightarrow> error option"
  backupStream :: "event list \<Rightarrow> backupStream_args \<Rightarrow> error option"
  mgr_StreamNames :: "event list \<Rightarrow> string list \<times> error option"
  os_ReadDir :: "event list \<Rightarrow> string \<Rightarrow> DirEntry list \<times> error option"
  os_Stat :: "event list \<Rightarrow> string \<Rightarrow> error option"
  streamCmd_restoreAction :: "event list \<Rightarrow> streamCmd \<Rightarrow> error option"
  filepath_Join :: "string list \<Rightarrow> string"

text \<open>
  How a run ends: the action returns (nil or an error), or the process is ended by
  \<open>fisk.FatalIfError(err, format, args)\<close> with a non-nil \<open>err\<close> (\<open>Fatal (Some err)\<close>)
  or by \<open>fisk.Fatalf(format, args)\<close> (\<open>Fatal None\<close>).
\<close>

datatype outcome =
    Returns "error option"
  | Fatal "error option" string "arg list"

subsection \<open>backupAction\<close>

text \<open>Lines 91-98: the loop that adds up the latest state of every stream. The error
  of \<open>LatestState\<close> is dropped and the state that came with it is added.\<close>

fun totals_loop :: "env \<Rightarrow> Stream list \<Rightarrow> 64 word \<times> 64 word \<times> event list
    \<Rightarrow> 64 word \<times> 64 word \<times> event list" where
  "totals_loop e [] acc = acc"
| "totals_loop e (s # ss) (totalSize, totalConsumers, tr) =
     (let r = LatestState e tr s;
          state = fst r
      in totals_loop e ss
           (totalSize + Bytes state, totalConsumers + Consumers state,
            tr @ [Call_LatestState s r]))"

text \<open>Line 126: the arguments of the call of \<open>backupStream\<close> for one stream.\<close>

definition backup_args :: "env \<Rightarrow> actCmd \<Rightarrow> Stream \<Rightarrow> backupStream_args" where
  "backup_args e c s =
     \<lparr> streamHandle = s,
       progress = False,
       includeConsumers = snapShotConsumers c,
       verifyHealth = healthCheck c,
       targetDir = filepath_Join e [backupDirectory c, Stream_Name s] \<rparr>"

text \<open>Lines 125-135: the loop over the streams, with the two lists \<open>errs\<close> and
  \<open>warns\<close>.\<close>

fun backup_loop :: "env \<Rightarrow> actCmd \<Rightarrow> Stream list \<Rightarrow> error list \<times> error list \<times> event list
    \<Rightarrow> error list \<times> error list \<times> event list" where
  "backup_loop e c [] acc = acc"
| "backup_loop e c (s # ss) (errs, warns, tr) =
     (let err = backupStream e tr (backup_args e c s);
          tr1 = tr @ [Call_backupStream (backup_args e c s) err]
      in case err of
           None \<Rightarrow> backup_loop e c ss (errs, warns, tr1 @ [Println])
         | Some x \<Rightarrow>
             if errors_Is x ErrMemoryStreamNotSupported then
               backup_loop e c ss
                 (errs,
                  warns @ [ErrorfW ''%s: %w'' (Stream_Name s) x],
                  tr1 @ [Printf ''Backup of %s failed: %v\<newline>'' [ArgString (Stream_Name s), ArgError x],
                         Println])
             else
               backup_loop e c ss
                 (errs @ [ErrorfS ''%s: %s'' (Stream_Name s) x],
                  warns,
                  tr1 @ [Printf ''Backup of %s failed: %s\<newline>'' [ArgString (Stream_Name s), ArgError x],
                         Println]))"

text \<open>Lines 137-151: the two reports, each printed when its list is not empty.\<close>

definition report :: "string \<Rightarrow> error list \<Rightarrow> event list" where
  "report title xs =
     (if length xs > 0 then
        [Printf title []] @ map (\<lambda>err. Printf ''  %s\<newline>'' [ArgError err]) xs @ [Println]
      else [])"

text \<open>Lines 117-157: from the creation of the root directory to the result.\<close>

definition backup_phase :: "env \<Rightarrow> actCmd \<Rightarrow> Stream list \<Rightarrow> event list \<Rightarrow> outcome \<times> event list" where
  "backup_phase e c streams tr =
     (let err = os_MkdirAll e tr (backupDirectory c) 448;
          tr1 = tr @ [Call_MkdirAll (backupDirectory c) 448 err]
      in case err of
           Some x \<Rightarrow> (Returns (Some x), tr1)
         | None \<Rightarrow>
             (case backup_loop e c streams ([], [], tr1) of
                (errs, warns, tr2) \<Rightarrow>
                  (let tr3 = tr2 @ report ''Backup Warnings: \<newline>'' warns
                                 @ report ''Backup failures: \<newline>'' errs
                   in if length errs > 0 \<or> length warns > 0 \<and> failOnWarn c
                      then (Returns (Some (ErrorString ''backup failed'')), tr3)
                      else (Returns None, tr3))))"

text \<open>Lines 100-104: the summary.\<close>

definition summary :: "actCmd \<Rightarrow> Stream list \<Rightarrow> 64 word \<Rightarrow> 64 word \<Rightarrow> event list" where
  "summary c streams totalSize totalConsumers =
     [Printf ''Performing backup of all streams to %s\<newline>\<newline>'' [ArgString (backupDirectory c)],
      Printf ''    Streams: %s\<newline>'' [ArgComma (int (length streams))],
      Printf ''       Size: %s\<newline>'' [ArgIBytes totalSize],
      Printf ''  Consumers: %s\<newline>'' [ArgComma (sint totalConsumers)],
      Println]"

text \<open>Lines 76-158.\<close>

definition backupAction :: "env \<Rightarrow> actCmd \<Rightarrow> outcome \<times> event list" where
  "backupAction e c =
     (let err = prepareHelper e [];
          tr0 = [Call_prepareHelper err]
      in case err of
           Some x \<Rightarrow> (Fatal (Some x) ''setup failed'' [], tr0)
         | None \<Rightarrow>
             (let r = mgr_Streams e tr0;
                  streams = fst r;
                  tr1 = tr0 @ [Call_Streams r]
              in case snd r of
                   Some x \<Rightarrow> (Returns (Some x), tr1)
                 | None \<Rightarrow>
                     if length streams = 0 then
                       (Returns (Some (ErrorString ''no streams found'')), tr1)
                     else
                       (case totals_loop e streams (0, 0, tr1) of
                          (totalSize, totalConsumers, tr2) \<Rightarrow>
                            (let tr3 = tr2 @ summary c streams totalSize totalConsumers
                             in if \<not> force c then
                                  (let a = askConfirmation e tr3 ''Perform backup'' False;
                                       tr4 = tr3 @ [Call_askConfirmation ''Perform backup'' False a]
                                   in case snd a of
                                        Some x \<Rightarrow> (Returns (Some x), tr4)
                                      | None \<Rightarrow>
                                          if \<not> fst a then (Returns None, tr4)
                                          else backup_phase e c streams tr4)
                                else backup_phase e c streams tr3))))"

subsection \<open>restoreAction\<close>

text \<open>Lines 167-170: the set of the names of the existing streams, as a map to the
  empty struct.\<close>

definition existingStreams :: "string list \<Rightarrow> (string \<rightharpoonup> unit)" where
  "existingStreams streams = fold (\<lambda>n m. m(n \<mapsto> ())) streams Map.empty"

text \<open>
  Lines 173-182: the validation loop. \<open>err\<close> is the variable assigned by
  \<open>os.ReadDir\<close> at line 171, which the check of \<open>IsDir\<close> hands to
  \<open>fisk.FatalIfError\<close>; the result of \<open>os.Stat\<close> is a new variable of the loop body.
  The result is \<open>None\<close> when the loop ends, or the fatal exit.
\<close>

fun validate_loop :: "env \<Rightarrow> actCmd \<Rightarrow> (string \<rightharpoonup> unit) \<Rightarrow> error option \<Rightarrow> DirEntry list
    \<Rightarrow> event list \<Rightarrow> outcome option \<times> event list" where
  "validate_loop e c existing err [] tr = (None, tr)"
| "validate_loop e c existing err (d # ds) tr =
     (if \<not> IsDir d \<and> err \<noteq> None then
        (Some (Fatal err ''expected a directory'' []), tr)
      else if existing (DirEntry_Name d) \<noteq> None then
        (Some (Fatal None ''stream %q exists already'' [ArgString (DirEntry_Name d)]), tr)
      else
        (let p = filepath_Join e [backupDirectory c, DirEntry_Name d, ''backup.json''];
             err' = os_Stat e tr p;
             tr1 = tr @ [Call_Stat p err']
         in case err' of
              Some x \<Rightarrow> (Some (Fatal (Some x) ''expected backup.json'' []), tr1)
            | None \<Rightarrow> validate_loop e c existing err ds tr1))"

text \<open>Line 184 and line 186: the receiver of the single-stream restore for one entry.\<close>

definition restore_cmd :: "env \<Rightarrow> actCmd \<Rightarrow> DirEntry \<Rightarrow> streamCmd" where
  "restore_cmd e c d =
     \<lparr> msgID = - 1,
       showProgress = False,
       s_placementCluster = placementCluster c,
       s_placementTags = placementTags c,
       s_backupDirectory = filepath_Join e [backupDirectory c, DirEntry_Name d] \<rparr>"

text \<open>Lines 185-189: the restore loop.\<close>

fun restore_loop :: "env \<Rightarrow> actCmd \<Rightarrow> DirEntry list \<Rightarrow> event list \<Rightarrow> outcome option \<times> event list" where
  "restore_loop e c [] tr = (None, tr)"
| "restore_loop e c (d # ds) tr =
     (let err = streamCmd_restoreAction e tr (restore_cmd e c d);
          tr1 = tr @ [Call_restoreAction (restore_cmd e c d) err]
      in case err of
           Some x \<Rightarrow> (Some (Fatal (Some x) ''restore for %s failed'' [ArgString (DirEntry_Name d)]), tr1)
         | None \<Rightarrow> restore_loop e c ds tr1)"

text \<open>Lines 160-191.\<close>

definition restoreAction :: "env \<Rightarrow> actCmd \<Rightarrow> outcome \<times> event list" where
  "restoreAction e c =
     (let err = prepareHelper e [];
          tr0 = [Call_prepareHelper err]
      in case err of
           Some x \<Rightarrow> (Fatal (Some x) ''setup failed'' [], tr0)
         | None \<Rightarrow>
             (let r = mgr_StreamNames e tr0;
                  streams = fst r;
                  tr1 = tr0 @ [Call_StreamNames r]
              in case snd r of
                   Some x \<Rightarrow> (Returns (Some x), tr1)
                 | None \<Rightarrow>
                     (let rd = os_ReadDir e tr1 (backupDirectory c);
                          de = fst rd;
                          err = snd rd;
                          tr2 = tr1 @ [Call_ReadDir (backupDirectory c) rd]
                      in case err of
                           Some x \<Rightarrow> (Fatal (Some x) ''setup failed'' [], tr2)
                         | None \<Rightarrow>
                             (case validate_loop e c (existingStreams streams) err de tr2 of
                                (Some out, tr3) \<Rightarrow> (out, tr3)
                              | (None, tr3) \<Rightarrow>
                                  (let tr4 = tr3 @ [Printf ''Restoring backup of all %d streams in directory %q\<newline>\<newline>''
                                                      [ArgInt (int (length de)), ArgString (backupDirectory c)]]
                                   in case restore_loop e c de tr4 of
                                        (Some out, tr5) \<Rightarrow> (out, tr5)
                                      | (None, tr5) \<Rightarrow> (Returns None, tr5))))))"

subsection \<open>Observations on traces\<close>

text \<open>The calls of the backup primitive in a trace, in order, each with its result.\<close>

fun backup_calls :: "event list \<Rightarrow> (backupStream_args \<times> error option) list" where
  "backup_calls [] = []"
| "backup_calls (Call_backupStream a r # tr) = (a, r) # backup_calls tr"
| "backup_calls (_ # tr) = backup_calls tr"

text \<open>
  The outcome of one call of the backup primitive, read from its result: a
  Warning when the result is the unsupported-storage-class error of package jsm
  (as \<open>errors.Is\<close> finds it), a Failure when it is any other error, a success
  when it is nil.
\<close>

definition is_Warning :: "error option \<Rightarrow> bool" where
  "is_Warning r = errors_Is_opt r ErrMemoryStreamNotSupported"

definition is_Failure :: "error option \<Rightarrow> bool" where
  "is_Failure r = (r \<noteq> None \<and> \<not> errors_Is_opt r ErrMemoryStreamNotSupported)"

text \<open>The records that a list of calls leaves in the list of warnings and in the
  list of failures.\<close>

definition warnings_of :: "(backupStream_args \<times> error option) list \<Rightarrow> error list" where
  "warnings_of calls =
     map (\<lambda>(a, r). ErrorfW ''%s: %w'' (Stream_Name (streamHandle a)) (the r))
       (filter (\<lambda>(a, r). is_Warning r) calls)"

definition failures_of :: "(backupStream_args \<times> error option) list \<Rightarrow> error list" where
  "failures_of calls =
     map (\<lambda>(a, r). ErrorfS ''%s: %s'' (Stream_Name (streamHandle a)) (the r))
       (filter (\<lambda>(a, r). is_Failure r) calls)"

text \<open>The line printed for a stream whose backup returned the error \<open>x\<close>.\<close>

definition failed_line :: "backupStream_args \<Rightarrow> error \<Rightarrow> event" where
  "failed_line a x =
     Printf (if errors_Is x ErrMemoryStreamNotSupported
             then ''Backup of %s failed: %v\<newline>'' else ''Backup of %s failed: %s\<newline>'')
       [ArgString (Stream_Name (streamHandle a)), ArgError x]"

text \<open>The events of the loop over the streams, the events that change the file
  system (the creation of the root directory, a call of the backup primitive), and
  the calls of the confirmation.\<close>

fun backup_event :: "event \<Rightarrow> bool" where
  "backup_event (Call_backupStream a r) = True"
| "backup_event (Printf f as) = True"
| "backup_event Println = True"
| "backup_event _ = False"

fun fs_change :: "event \<Rightarrow> bool" where
  "fs_change (Call_MkdirAll p m r) = True"
| "fs_change (Call_backupStream a r) = True"
| "fs_change _ = False"

fun is_ask :: "event \<Rightarrow> bool" where
  "is_ask (Call_askConfirmation p d r) = True"
| "is_ask _ = False"

text \<open>The reads of the latest state as events, and the sums of the two fields over
  a list of reads, in the 64-bit arithmetic of the code.\<close>

definition read_events :: "(Stream \<times> StreamState \<times> error option) list \<Rightarrow> event list" where
  "read_events rs = map (\<lambda>(s, r). Call_LatestState s r) rs"

definition total_Bytes :: "(Stream \<times> StreamState \<times> error option) list \<Rightarrow> 64 word" where
  "total_Bytes rs = sum_list (map (\<lambda>(s, st, err). Bytes st) rs)"

definition total_Consumers :: "(Stream \<times> StreamState \<times> error option) list \<Rightarrow> 64 word" where
  "total_Consumers rs = sum_list (map (\<lambda>(s, st, err). Consumers st) rs)"

text \<open>What \<open>LatestState\<close> returns for each stream of a list, in order, when the
  reads start after the trace \<open>tr\<close> and each read is recorded before the next: the
  state and the error of every read, also of a read that failed.\<close>

fun latest_reads :: "env \<Rightarrow> Stream list \<Rightarrow> event list \<Rightarrow> (Stream \<times> StreamState \<times> error option) list" where
  "latest_reads e [] tr = []"
| "latest_reads e (s # ss) tr =
     (s, LatestState e tr s) # latest_reads e ss (tr @ [Call_LatestState s (LatestState e tr s)])"

text \<open>The calls of the single-stream restore and of \<open>os.Stat\<close> in a trace, the path
  of the manifest of an entry, and the line printed before the first restore.\<close>

fun restore_calls :: "event list \<Rightarrow> (streamCmd \<times> error option) list" where
  "restore_calls [] = []"
| "restore_calls (Call_restoreAction s r # tr) = (s, r) # restore_calls tr"
| "restore_calls (_ # tr) = restore_calls tr"

fun stat_calls :: "event list \<Rightarrow> (string \<times> error option) list" where
  "stat_calls [] = []"
| "stat_calls (Call_Stat p r # tr) = (p, r) # stat_calls tr"
| "stat_calls (_ # tr) = stat_calls tr"

definition manifest_path :: "env \<Rightarrow> actCmd \<Rightarrow> DirEntry \<Rightarrow> string" where
  "manifest_path e c d = filepath_Join e [backupDirectory c, DirEntry_Name d, ''backup.json'']"

definition stat_events :: "(string \<times> error option) list \<Rightarrow> event list" where
  "stat_events sts = map (\<lambda>(p, r). Call_Stat p r) sts"

definition restore_events :: "(streamCmd \<times> error option) list \<Rightarrow> event list" where
  "restore_events rs = map (\<lambda>(s, r). Call_restoreAction s r) rs"

fun is_restore :: "event \<Rightarrow> bool" where
  "is_restore (Call_restoreAction s r) = True"
| "is_restore _ = False"

definition restoring_line :: "actCmd \<Rightarrow> DirEntry list \<Rightarrow> event" where
  "restoring_line c de =
     Printf ''Restoring backup of all %d streams in directory %q\<newline>\<newline>''
       [ArgInt (int (length de)), ArgString (backupDirectory c)]"

text \<open>A run that was ended by \<open>fisk.FatalIfError\<close> or \<open>fisk.Fatalf\<close>.\<close>

fun is_Fatal :: "outcome \<Rightarrow> bool" where
  "is_Fatal (Fatal x f as) = True"
| "is_Fatal (Returns x) = False"

subsection \<open>Example environments\<close>

text \<open>
  An account with three streams: the backup of \<open>CACHE\<close> returns the memory-stream
  error and the backup of \<open>AUDIT\<close> another error; the latest state of \<open>CACHE\<close>
  cannot be read. The backup root \<open>bk\<close> holds three artifact directories. Paths
  are joined with a slash. The other environments change one collaborator each.
\<close>

fun join_slash :: "string list \<Rightarrow> string" where
  "join_slash [] = []"
| "join_slash [x] = x"
| "join_slash (x # y # ys) = x @ ''/'' @ join_slash (y # ys)"

definition env_demo :: env where
  "env_demo =
     \<lparr> prepareHelper = (\<lambda>tr. None),
       mgr_Streams = (\<lambda>tr. ([Stream ''ORDERS'', Stream ''CACHE'', Stream ''AUDIT''], None)),
       LatestState = (\<lambda>tr s.
          if s = Stream ''ORDERS'' then (\<lparr> Bytes = 1024, Consumers = 2 \<rparr>, None)
          else if s = Stream ''CACHE'' then (\<lparr> Bytes = 0, Consumers = 0 \<rparr>, Some (ErrorString ''timeout''))
          else (\<lparr> Bytes = 512, Consumers = 1 \<rparr>, None)),
       askConfirmation = (\<lambda>tr p d. (True, None)),
       os_MkdirAll = (\<lambda>tr p m. None),
       backupStream = (\<lambda>tr a.
          if streamHandle a = Stream ''CACHE'' then Some ErrMemoryStreamNotSupported
          else if streamHandle a = Stream ''AUDIT'' then Some (ErrorString ''timeout'')
          else None),
       mgr_StreamNames = (\<lambda>tr. ([''EVENTS''], None)),
       os_ReadDir = (\<lambda>tr p.
          ([\<lparr> DirEntry_Name = ''ORDERS'', IsDir = True \<rparr>,
            \<lparr> DirEntry_Name = ''AUDIT'', IsDir = True \<rparr>,
            \<lparr> DirEntry_Name = ''CACHE'', IsDir = True \<rparr>], None)),
       os_Stat = (\<lambda>tr p. None),
       streamCmd_restoreAction = (\<lambda>tr s. None),
       filepath_Join = join_slash \<rparr>"

definition cmd_demo :: actCmd where
  "cmd_demo =
     \<lparr> backupDirectory = ''bk'', healthCheck = True, snapShotConsumers = True,
       force = False, failOnWarn = False,
       placementCluster = ''east'', placementTags = [''ssd''] \<rparr>"

definition de_demo :: "DirEntry list" where
  "de_demo = [\<lparr> DirEntry_Name = ''ORDERS'', IsDir = True \<rparr>,
              \<lparr> DirEntry_Name = ''AUDIT'', IsDir = True \<rparr>,
              \<lparr> DirEntry_Name = ''CACHE'', IsDir = True \<rparr>]"

definition env_warn :: env where
  "env_warn = env_demo \<lparr> backupStream := (\<lambda>tr a.
      if streamHandle a = Stream ''CACHE'' then Some ErrMemoryStreamNotSupported else None) \<rparr>"

definition env_empty :: env where
  "env_empty = env_demo \<lparr> mgr_Streams := (\<lambda>tr. ([], None)) \<rparr>"

definition env_no :: env where
  "env_no = env_demo \<lparr> askConfirmation := (\<lambda>tr p d. (False, None)) \<rparr>"

definition env_collide :: env where
  "env_collide = env_demo \<lparr> mgr_StreamNames := (\<lambda>tr. ([''AUDIT''], None)) \<rparr>"

definition env_rfail :: env where
  "env_rfail = env_demo \<lparr> streamCmd_restoreAction := (\<lambda>tr s.
      if s_backupDirectory s = ''bk/AUDIT'' then Some (ErrorString ''stream exists'') else None) \<rparr>"

definition env_symlink :: env where
  "env_symlink = env_demo \<lparr> os_ReadDir := (\<lambda>tr p.
      ([\<lparr> DirEntry_Name = ''ORDERS'', IsDir = False \<rparr>], None)) \<rparr>"

definition env_missing :: env where
  "env_missing = env_demo \<lparr> os_Stat := (\<lambda>tr p.
      if p = ''bk/AUDIT/backup.json'' then Some (ErrorString ''no such file or directory'') else None) \<rparr>"

definition cmd_force :: actCmd where
  "cmd_force = cmd_demo \<lparr> force := True \<rparr>"



section \<open>Properties of backupAction\<close>

subsection \<open>Traces of the iterations\<close>

lemma backup_calls_append: "backup_calls (xs @ ys) = backup_calls xs @ backup_calls ys"
  by (induction xs rule: backup_calls.induct) simp_all

lemma warnings_of_append: "warnings_of (xs @ ys) = warnings_of xs @ warnings_of ys"
  by (simp add: warnings_of_def)

lemma failures_of_append: "failures_of (xs @ ys) = failures_of xs @ failures_of ys"
  by (simp add: failures_of_def)

lemma backup_calls_in_set: "(a, r) \<in> set (backup_calls tr) \<longleftrightarrow> Call_backupStream a r \<in> set tr"
  by (induction tr rule: backup_calls.induct) auto

lemma backup_calls_none: "\<forall>ev \<in> set tr. \<not> fs_change ev \<Longrightarrow> backup_calls tr = []"
  by (induction tr rule: backup_calls.induct) auto

lemma report_events: "ev \<in> set (report t xs) \<Longrightarrow> \<not> fs_change ev \<and> \<not> is_ask ev"
  by (auto simp add: report_def split: if_splits)

lemma backup_calls_report: "backup_calls (report t xs) = []"
  by (rule backup_calls_none) (auto dest: report_events)

lemma read_events_kind: "ev \<in> set (read_events rs) \<Longrightarrow> \<not> fs_change ev \<and> \<not> is_ask ev"
  by (auto simp add: read_events_def)

lemma summary_kind: "ev \<in> set (summary c ss a b) \<Longrightarrow> \<not> fs_change ev \<and> \<not> is_ask ev"
  by (auto simp add: summary_def)

lemma backup_event_not_ask: "backup_event ev \<Longrightarrow> \<not> is_ask ev"
  by (cases ev) simp_all

lemma warnings_of_empty: "warnings_of calls \<noteq> [] \<longleftrightarrow> (\<exists>cr \<in> set calls. is_Warning (snd cr))"
  by (simp add: warnings_of_def filter_empty_conv split_beta)

lemma failures_of_empty: "failures_of calls \<noteq> [] \<longleftrightarrow> (\<exists>cr \<in> set calls. is_Failure (snd cr))"
  by (simp add: failures_of_def filter_empty_conv split_beta)

lemma backup_calls_evs: "\<forall>ev \<in> set pre. \<not> fs_change ev \<Longrightarrow>
  backup_calls (pre @ [Call_MkdirAll d m r] @ evs @ report t1 xs @ report t2 ys) = backup_calls evs"
  by (simp add: backup_calls_append backup_calls_report backup_calls_none)

lemma prefix_before:
  assumes "A @ B = pre @ ev # post" and "\<forall>x \<in> set A. \<not> P x" and "P ev"
  shows "\<exists>us. pre = A @ us"
proof -
  from assms(1) consider us where "A = pre @ us" "us @ B = ev # post"
    | us where "A @ us = pre" "B = us @ ev # post"
    by (auto simp add: append_eq_append_conv2)
  then show ?thesis
  proof cases
    case 1
    show ?thesis
    proof (cases us)
      case Nil
      with 1 show ?thesis by simp
    next
      case (Cons u us')
      with 1 have "ev \<in> set A" by simp
      with assms(2,3) show ?thesis by blast
    qed
  next
    case 2
    then show ?thesis by blast
  qed
qed

text \<open>The loop over the streams calls the primitive once for every stream, in order,
  whatever the calls return, and files each error in one of the two lists.\<close>

lemma backup_loop_trace:
  "backup_loop e c ss (errs, warns, tr) = (errs', warns', tr') \<Longrightarrow>
   \<exists>evs. tr' = tr @ evs
     \<and> map fst (backup_calls evs) = map (backup_args e c) ss
     \<and> errs' = errs @ failures_of (backup_calls evs)
     \<and> warns' = warns @ warnings_of (backup_calls evs)
     \<and> (\<forall>ev \<in> set evs. backup_event ev)
     \<and> (\<forall>a x. (a, Some x) \<in> set (backup_calls evs) \<longrightarrow> failed_line a x \<in> set evs)"
proof (induction ss arbitrary: errs warns tr)
  case Nil
  then show ?case by (simp add: warnings_of_def failures_of_def)
next
  case (Cons s ss)
  let ?a = "backup_args e c s"
  let ?r = "backupStream e tr ?a"
  let ?ev = "Call_backupStream ?a ?r"
  have name: "Stream_Name (streamHandle ?a) = Stream_Name s"
    by (simp add: backup_args_def)
  show ?case
  proof (cases ?r)
    case None
    with Cons.prems have "backup_loop e c ss (errs, warns, tr @ [?ev, Println]) = (errs', warns', tr')"
      by (simp add: Let_def)
    from Cons.IH[OF this] obtain evs where
      "tr' = (tr @ [?ev, Println]) @ evs"
      "map fst (backup_calls evs) = map (backup_args e c) ss"
      "errs' = errs @ failures_of (backup_calls evs)"
      "warns' = warns @ warnings_of (backup_calls evs)"
      "\<forall>ev \<in> set evs. backup_event ev"
      "\<forall>a x. (a, Some x) \<in> set (backup_calls evs) \<longrightarrow> failed_line a x \<in> set evs" by blast
    then show ?thesis using None
      by (intro exI[of _ "[?ev, Println] @ evs"])
         (simp add: backup_calls_append warnings_of_def failures_of_def is_Warning_def is_Failure_def)
  next
    case (Some x)
    let ?p = "failed_line ?a x"
    show ?thesis
    proof (cases "errors_Is x ErrMemoryStreamNotSupported")
      case True
      from Cons.prems Some True have
        "backup_loop e c ss (errs, warns @ [ErrorfW ''%s: %w'' (Stream_Name s) x], tr @ [?ev, ?p, Println]) = (errs', warns', tr')"
        by (simp add: Let_def failed_line_def name)
      from Cons.IH[OF this] obtain evs where
        "tr' = (tr @ [?ev, ?p, Println]) @ evs"
        "map fst (backup_calls evs) = map (backup_args e c) ss"
        "errs' = errs @ failures_of (backup_calls evs)"
        "warns' = (warns @ [ErrorfW ''%s: %w'' (Stream_Name s) x]) @ warnings_of (backup_calls evs)"
        "\<forall>ev \<in> set evs. backup_event ev"
        "\<forall>a x. (a, Some x) \<in> set (backup_calls evs) \<longrightarrow> failed_line a x \<in> set evs" by blast
      then show ?thesis using Some True name
        by (intro exI[of _ "[?ev, ?p, Println] @ evs"])
           (auto simp add: backup_calls_append warnings_of_def failures_of_def is_Warning_def
              is_Failure_def failed_line_def)
    next
      case False
      from Cons.prems Some False have
        "backup_loop e c ss (errs @ [ErrorfS ''%s: %s'' (Stream_Name s) x], warns, tr @ [?ev, ?p, Println]) = (errs', warns', tr')"
        by (simp add: Let_def failed_line_def name)
      from Cons.IH[OF this] obtain evs where
        "tr' = (tr @ [?ev, ?p, Println]) @ evs"
        "map fst (backup_calls evs) = map (backup_args e c) ss"
        "errs' = (errs @ [ErrorfS ''%s: %s'' (Stream_Name s) x]) @ failures_of (backup_calls evs)"
        "warns' = warns @ warnings_of (backup_calls evs)"
        "\<forall>ev \<in> set evs. backup_event ev"
        "\<forall>a x. (a, Some x) \<in> set (backup_calls evs) \<longrightarrow> failed_line a x \<in> set evs" by blast
      then show ?thesis using Some False name
        by (intro exI[of _ "[?ev, ?p, Println] @ evs"])
           (auto simp add: backup_calls_append warnings_of_def failures_of_def is_Warning_def
              is_Failure_def failed_line_def)
    qed
  qed
qed

text \<open>The loop over the latest states reads every stream and adds what it read.\<close>

lemma latest_reads_streams: "map fst (latest_reads e ss tr) = ss"
  by (induction ss arbitrary: tr) simp_all

lemma totals_loop_trace:
  "totals_loop e ss (ts, tc, tr) =
     (ts + total_Bytes (latest_reads e ss tr), tc + total_Consumers (latest_reads e ss tr),
      tr @ read_events (latest_reads e ss tr))"
proof (induction ss arbitrary: ts tc tr)
  case Nil
  show ?case by (simp add: read_events_def total_Bytes_def total_Consumers_def)
next
  case (Cons s ss)
  let ?r = "LatestState e tr s"
  let ?tr = "tr @ [Call_LatestState s ?r]"
  have "totals_loop e (s # ss) (ts, tc, tr)
      = totals_loop e ss (ts + Bytes (fst ?r), tc + Consumers (fst ?r), ?tr)"
    by (simp add: Let_def)
  also have "\<dots> = (ts + Bytes (fst ?r) + total_Bytes (latest_reads e ss ?tr),
      tc + Consumers (fst ?r) + total_Consumers (latest_reads e ss ?tr),
      ?tr @ read_events (latest_reads e ss ?tr))"
    by (rule Cons.IH)
  also have "\<dots> = (ts + total_Bytes (latest_reads e (s # ss) tr),
      tc + total_Consumers (latest_reads e (s # ss) tr),
      tr @ read_events (latest_reads e (s # ss) tr))"
    by (simp add: read_events_def total_Bytes_def total_Consumers_def add.assoc split_beta)
  finally show ?case .
qed

subsection \<open>The shape of a run\<close>

lemma backup_phase_cases:
  assumes "backup_phase e c streams tr = (out, tr')"
  shows "(\<exists>x. os_MkdirAll e tr (backupDirectory c) 448 = Some x \<and> out = Returns (Some x)
            \<and> tr' = tr @ [Call_MkdirAll (backupDirectory c) 448 (Some x)])
       \<or> (os_MkdirAll e tr (backupDirectory c) 448 = None \<and>
          (\<exists>evs. tr' = tr @ [Call_MkdirAll (backupDirectory c) 448 None] @ evs
                   @ report ''Backup Warnings: \<newline>'' (warnings_of (backup_calls evs))
                   @ report ''Backup failures: \<newline>'' (failures_of (backup_calls evs))
             \<and> map fst (backup_calls evs) = map (backup_args e c) streams
             \<and> (\<forall>ev \<in> set evs. backup_event ev)
             \<and> (\<forall>a x. (a, Some x) \<in> set (backup_calls evs) \<longrightarrow> failed_line a x \<in> set evs)
             \<and> out = (if failures_of (backup_calls evs) \<noteq> []
                         \<or> warnings_of (backup_calls evs) \<noteq> [] \<and> failOnWarn c
                      then Returns (Some (ErrorString ''backup failed'')) else Returns None)))"
proof (cases "os_MkdirAll e tr (backupDirectory c) 448")
  case (Some x)
  with assms show ?thesis by (simp add: backup_phase_def Let_def)
next
  case None
  obtain errs warns tr2 where L:
    "backup_loop e c streams ([], [], tr @ [Call_MkdirAll (backupDirectory c) 448 None]) = (errs, warns, tr2)"
    by (metis prod_cases3)
  from backup_loop_trace[OF L] obtain evs where evs:
    "tr2 = (tr @ [Call_MkdirAll (backupDirectory c) 448 None]) @ evs"
    "map fst (backup_calls evs) = map (backup_args e c) streams"
    "errs = [] @ failures_of (backup_calls evs)"
    "warns = [] @ warnings_of (backup_calls evs)"
    "\<forall>ev \<in> set evs. backup_event ev"
    "\<forall>a x. (a, Some x) \<in> set (backup_calls evs) \<longrightarrow> failed_line a x \<in> set evs" by blast
  from assms None L have
    "out = (if errs \<noteq> [] \<or> warns \<noteq> [] \<and> failOnWarn c
            then Returns (Some (ErrorString ''backup failed'')) else Returns None)"
    "tr' = tr2 @ report ''Backup Warnings: \<newline>'' warns @ report ''Backup failures: \<newline>'' errs"
    by (auto simp add: backup_phase_def Let_def split: if_splits)
  with evs None show ?thesis by auto
qed

lemma backup_phase_trace:
  assumes "backup_phase e c streams tr = (out, tr')"
  shows "\<exists>r rest. tr' = tr @ [Call_MkdirAll (backupDirectory c) 448 r] @ rest
       \<and> (\<forall>ev \<in> set rest. \<not> is_ask ev)
       \<and> (case r of
            Some x \<Rightarrow> out = Returns (Some x) \<and> rest = []
          | None \<Rightarrow>
             (\<exists>evs. rest = evs
                   @ report ''Backup Warnings: \<newline>'' (warnings_of (backup_calls evs))
                   @ report ''Backup failures: \<newline>'' (failures_of (backup_calls evs))
               \<and> map fst (backup_calls evs) = map (backup_args e c) streams
               \<and> (\<forall>a x. (a, Some x) \<in> set (backup_calls evs) \<longrightarrow> failed_line a x \<in> set evs)
               \<and> out = (if failures_of (backup_calls evs) \<noteq> []
                         \<or> warnings_of (backup_calls evs) \<noteq> [] \<and> failOnWarn c
                      then Returns (Some (ErrorString ''backup failed'')) else Returns None)))"
proof -
  from backup_phase_cases[OF assms] show ?thesis
  proof
    assume "\<exists>x. os_MkdirAll e tr (backupDirectory c) 448 = Some x \<and> out = Returns (Some x)
            \<and> tr' = tr @ [Call_MkdirAll (backupDirectory c) 448 (Some x)]"
    then obtain x where "out = Returns (Some x)" "tr' = tr @ [Call_MkdirAll (backupDirectory c) 448 (Some x)]"
      by blast
    then show ?thesis
      by (intro exI[of _ "Some x"] exI[of _ "[]"]) simp
  next
    assume "os_MkdirAll e tr (backupDirectory c) 448 = None \<and>
          (\<exists>evs. tr' = tr @ [Call_MkdirAll (backupDirectory c) 448 None] @ evs
                   @ report ''Backup Warnings: \<newline>'' (warnings_of (backup_calls evs))
                   @ report ''Backup failures: \<newline>'' (failures_of (backup_calls evs))
             \<and> map fst (backup_calls evs) = map (backup_args e c) streams
             \<and> (\<forall>ev \<in> set evs. backup_event ev)
             \<and> (\<forall>a x. (a, Some x) \<in> set (backup_calls evs) \<longrightarrow> failed_line a x \<in> set evs)
             \<and> out = (if failures_of (backup_calls evs) \<noteq> []
                         \<or> warnings_of (backup_calls evs) \<noteq> [] \<and> failOnWarn c
                      then Returns (Some (ErrorString ''backup failed'')) else Returns None))"
    then obtain evs where evs:
      "tr' = tr @ [Call_MkdirAll (backupDirectory c) 448 None] @ evs
                   @ report ''Backup Warnings: \<newline>'' (warnings_of (backup_calls evs))
                   @ report ''Backup failures: \<newline>'' (failures_of (backup_calls evs))"
      "map fst (backup_calls evs) = map (backup_args e c) streams"
      "\<forall>ev \<in> set evs. backup_event ev"
      "\<forall>a x. (a, Some x) \<in> set (backup_calls evs) \<longrightarrow> failed_line a x \<in> set evs"
      "out = (if failures_of (backup_calls evs) \<noteq> []
                         \<or> warnings_of (backup_calls evs) \<noteq> [] \<and> failOnWarn c
                      then Returns (Some (ErrorString ''backup failed'')) else Returns None)"
      by blast
    let ?rest = "evs @ report ''Backup Warnings: \<newline>'' (warnings_of (backup_calls evs))
                   @ report ''Backup failures: \<newline>'' (failures_of (backup_calls evs))"
    have "\<forall>ev \<in> set ?rest. \<not> is_ask ev"
      using evs(3) by (auto dest: report_events backup_event_not_ask)
    moreover have "\<exists>evs'. ?rest = evs'
                   @ report ''Backup Warnings: \<newline>'' (warnings_of (backup_calls evs'))
                   @ report ''Backup failures: \<newline>'' (failures_of (backup_calls evs'))
               \<and> map fst (backup_calls evs') = map (backup_args e c) streams
               \<and> (\<forall>a x. (a, Some x) \<in> set (backup_calls evs') \<longrightarrow> failed_line a x \<in> set evs')
               \<and> out = (if failures_of (backup_calls evs') \<noteq> []
                         \<or> warnings_of (backup_calls evs') \<noteq> [] \<and> failOnWarn c
                      then Returns (Some (ErrorString ''backup failed'')) else Returns None)"
      using evs(2,4,5) by (intro exI[of _ evs]) simp
    ultimately show ?thesis using evs(1)
      by (intro exI[of _ "None"] exI[of _ ?rest]) simp
  qed
qed


lemma backupAction_front:
  assumes "backupAction e c = (out, tr)"
    and "prepareHelper e [] = None"
    and "mgr_Streams e [Call_prepareHelper None] = (streams, None)"
    and "streams \<noteq> []"
  shows "\<exists>rs tr3. rs = latest_reads e streams [Call_prepareHelper None, Call_Streams (streams, None)]
      \<and> map fst rs = streams
      \<and> tr3 = [Call_prepareHelper None, Call_Streams (streams, None)] @ read_events rs
               @ summary c streams (total_Bytes rs) (total_Consumers rs)
      \<and> (if force c then backup_phase e c streams tr3 = (out, tr)
         else (case snd (askConfirmation e tr3 ''Perform backup'' False) of
                 Some x \<Rightarrow> out = Returns (Some x)
                   \<and> tr = tr3 @ [Call_askConfirmation ''Perform backup'' False (askConfirmation e tr3 ''Perform backup'' False)]
               | None \<Rightarrow>
                   if \<not> fst (askConfirmation e tr3 ''Perform backup'' False)
                   then out = Returns None
                     \<and> tr = tr3 @ [Call_askConfirmation ''Perform backup'' False (askConfirmation e tr3 ''Perform backup'' False)]
                   else backup_phase e c streams
                          (tr3 @ [Call_askConfirmation ''Perform backup'' False (askConfirmation e tr3 ''Perform backup'' False)])
                        = (out, tr)))"
proof -
  define rs where "rs = latest_reads e streams [Call_prepareHelper None, Call_Streams (streams, None)]"
  define ts where "ts = total_Bytes rs"
  define tc where "tc = total_Consumers rs"
  define tr2 where "tr2 = [Call_prepareHelper None, Call_Streams (streams, None)] @ read_events rs"
  have T: "totals_loop e streams (0, 0, [Call_prepareHelper None, Call_Streams (streams, None)]) = (ts, tc, tr2)"
    unfolding totals_loop_trace by (simp add: rs_def ts_def tc_def tr2_def)
  have rs: "map fst rs = streams" "tr2 = [Call_prepareHelper None, Call_Streams (streams, None)] @ read_events rs"
    "ts = total_Bytes rs" "tc = total_Consumers rs"
    by (simp_all add: rs_def latest_reads_streams ts_def tc_def tr2_def)
  show ?thesis
    apply (rule exI[of _ rs])
    apply (rule exI[of _ "tr2 @ summary c streams ts tc"])
    apply (rule conjI)
     apply (rule rs_def)
    using assms T rs
    apply (simp add: backupAction_def Let_def split: option.splits if_splits)
    done
qed

lemma backupAction_early:
  assumes "backupAction e c = (out, tr)"
    and "\<not> (prepareHelper e [] = None \<and> snd (mgr_Streams e [Call_prepareHelper None]) = None
           \<and> fst (mgr_Streams e [Call_prepareHelper None]) \<noteq> [])"
  shows "tr = [Call_prepareHelper (prepareHelper e [])]
       \<or> tr = [Call_prepareHelper None, Call_Streams (mgr_Streams e [Call_prepareHelper None])]"
  using assms
  by (auto simp add: backupAction_def Let_def split: option.splits if_splits)

lemma ask_last:
  assumes "\<forall>ev \<in> set tr3. \<not> is_ask ev"
    and "Call_askConfirmation p d r \<in> set (tr3 @ [Call_askConfirmation p d a])"
  shows "r = a"
  using assms by auto

text \<open>The shape of every run: either it stops before anything is created, or the
  root directory is created after a part that changes nothing on the file system
  and whose last event, without force, is the affirmative confirmation.\<close>

lemma backupAction_shape:
  assumes "backupAction e c = (out, tr)"
  obtains
    (stopped)
      "\<forall>ev \<in> set tr. \<not> fs_change ev"
      "force c \<longrightarrow> (\<forall>ev \<in> set tr. \<not> is_ask ev)"
      "\<forall>ok. Call_askConfirmation ''Perform backup'' False (ok, None) \<in> set tr \<longrightarrow> out = Returns None \<and> \<not> ok"
      "\<forall>ok x. Call_askConfirmation ''Perform backup'' False (ok, Some x) \<in> set tr \<longrightarrow> out = Returns (Some x)"
      "force c \<longrightarrow> \<not> (prepareHelper e [] = None \<and> snd (mgr_Streams e [Call_prepareHelper None]) = None
                   \<and> fst (mgr_Streams e [Call_prepareHelper None]) \<noteq> [])"
  | (started) pre r rest where
      "tr = pre @ [Call_MkdirAll (backupDirectory c) 448 r] @ rest"
      "\<forall>ev \<in> set pre. \<not> fs_change ev"
      "force c \<longrightarrow> (\<forall>ev \<in> set pre. \<not> is_ask ev)"
      "\<not> force c \<longrightarrow> (\<exists>p. pre = p @ [Call_askConfirmation ''Perform backup'' False (True, None)]
                            \<and> (\<forall>ev \<in> set p. \<not> is_ask ev))"
      "\<forall>ev \<in> set rest. \<not> is_ask ev"
      "case r of
            Some x \<Rightarrow> out = Returns (Some x) \<and> rest = []
          | None \<Rightarrow>
             (\<exists>evs. rest = evs
                   @ report ''Backup Warnings: \<newline>'' (warnings_of (backup_calls evs))
                   @ report ''Backup failures: \<newline>'' (failures_of (backup_calls evs))
               \<and> map fst (backup_calls evs) = map (backup_args e c) (fst (mgr_Streams e [Call_prepareHelper None]))
               \<and> (\<forall>a x. (a, Some x) \<in> set (backup_calls evs) \<longrightarrow> failed_line a x \<in> set evs)
               \<and> out = (if failures_of (backup_calls evs) \<noteq> []
                         \<or> warnings_of (backup_calls evs) \<noteq> [] \<and> failOnWarn c
                      then Returns (Some (ErrorString ''backup failed'')) else Returns None))"
proof (cases "prepareHelper e [] = None \<and> snd (mgr_Streams e [Call_prepareHelper None]) = None
           \<and> fst (mgr_Streams e [Call_prepareHelper None]) \<noteq> []")
  case False
  from backupAction_early[OF assms False] have
    "tr = [Call_prepareHelper (prepareHelper e [])]
       \<or> tr = [Call_prepareHelper None, Call_Streams (mgr_Streams e [Call_prepareHelper None])]" .
  then show ?thesis
  proof
    assume t: "tr = [Call_prepareHelper (prepareHelper e [])]"
    show ?thesis by (rule stopped) (simp_all add: t False)
  next
    assume t: "tr = [Call_prepareHelper None, Call_Streams (mgr_Streams e [Call_prepareHelper None])]"
    show ?thesis by (rule stopped) (simp_all add: t False)
  qed
next
  case True
  define streams where "streams = fst (mgr_Streams e [Call_prepareHelper None])"
  have S: "mgr_Streams e [Call_prepareHelper None] = (streams, None)" "streams \<noteq> []"
    using True by (simp_all add: streams_def prod_eq_iff)
  have PH: "prepareHelper e [] = None" using True by simp
  from backupAction_front[OF assms PH S] obtain rs tr3 where F:
    "map fst rs = streams"
    "tr3 = [Call_prepareHelper None, Call_Streams (streams, None)] @ read_events rs
               @ summary c streams (total_Bytes rs) (total_Consumers rs)"
    "if force c then backup_phase e c streams tr3 = (out, tr)
         else (case snd (askConfirmation e tr3 ''Perform backup'' False) of
                 Some x \<Rightarrow> out = Returns (Some x)
                   \<and> tr = tr3 @ [Call_askConfirmation ''Perform backup'' False (askConfirmation e tr3 ''Perform backup'' False)]
               | None \<Rightarrow>
                   if \<not> fst (askConfirmation e tr3 ''Perform backup'' False)
                   then out = Returns None
                     \<and> tr = tr3 @ [Call_askConfirmation ''Perform backup'' False (askConfirmation e tr3 ''Perform backup'' False)]
                   else backup_phase e c streams
                          (tr3 @ [Call_askConfirmation ''Perform backup'' False (askConfirmation e tr3 ''Perform backup'' False)])
                        = (out, tr))"
    by blast
  have K: "\<forall>ev \<in> set tr3. \<not> fs_change ev" "\<forall>ev \<in> set tr3. \<not> is_ask ev"
    using F(2) read_events_kind summary_kind by auto
  let ?a = "askConfirmation e tr3 ''Perform backup'' False"
  let ?ask = "Call_askConfirmation ''Perform backup'' False ?a"
  show ?thesis
  proof (cases "force c")
    case fc: True
    with F(3) have P: "backup_phase e c (fst (mgr_Streams e [Call_prepareHelper None])) tr3 = (out, tr)"
      by (simp add: streams_def)
    from backup_phase_trace[OF P] obtain r rest where R:
      "tr = tr3 @ [Call_MkdirAll (backupDirectory c) 448 r] @ rest"
      "\<forall>ev \<in> set rest. \<not> is_ask ev"
      "case r of
            Some x \<Rightarrow> out = Returns (Some x) \<and> rest = []
          | None \<Rightarrow>
             (\<exists>evs. rest = evs
                   @ report ''Backup Warnings: \<newline>'' (warnings_of (backup_calls evs))
                   @ report ''Backup failures: \<newline>'' (failures_of (backup_calls evs))
               \<and> map fst (backup_calls evs) = map (backup_args e c) (fst (mgr_Streams e [Call_prepareHelper None]))
               \<and> (\<forall>a x. (a, Some x) \<in> set (backup_calls evs) \<longrightarrow> failed_line a x \<in> set evs)
               \<and> out = (if failures_of (backup_calls evs) \<noteq> []
                         \<or> warnings_of (backup_calls evs) \<noteq> [] \<and> failOnWarn c
                      then Returns (Some (ErrorString ''backup failed'')) else Returns None))"
      by blast
    show ?thesis
    proof (rule started[of tr3 r rest])
      show "tr = tr3 @ [Call_MkdirAll (backupDirectory c) 448 r] @ rest" by (rule R(1))
      show "\<forall>ev \<in> set tr3. \<not> fs_change ev" by (rule K(1))
      show "force c \<longrightarrow> (\<forall>ev \<in> set tr3. \<not> is_ask ev)" using K(2) by simp
      show "\<not> force c \<longrightarrow> (\<exists>p. tr3 = p @ [Call_askConfirmation ''Perform backup'' False (True, None)]
                            \<and> (\<forall>ev \<in> set p. \<not> is_ask ev))" using fc by simp
      show "\<forall>ev \<in> set rest. \<not> is_ask ev" by (rule R(2))
    qed (rule R(3))
  next
    case nf: False
    show ?thesis
    proof (cases "snd ?a")
      case (Some x)
      with F(3) nf have o: "out = Returns (Some x)" and t: "tr = tr3 @ [?ask]" by simp_all
      have only: "r = ?a" if "Call_askConfirmation ''Perform backup'' False r \<in> set tr" for r
        using ask_last[OF K(2)] that unfolding t by blast
      show ?thesis
      proof (rule stopped)
        show "\<forall>ev \<in> set tr. \<not> fs_change ev" using K(1) t by simp
        show "force c \<longrightarrow> (\<forall>ev \<in> set tr. \<not> is_ask ev)" using nf by simp
        show "\<forall>ok. Call_askConfirmation ''Perform backup'' False (ok, None) \<in> set tr \<longrightarrow> out = Returns None \<and> \<not> ok"
        proof (intro allI impI)
          fix ok assume "Call_askConfirmation ''Perform backup'' False (ok, None) \<in> set tr"
          then have "(ok, None) = ?a" by (rule only)
          then have "snd ?a = None" by (metis snd_conv)
          with Some show "out = Returns None \<and> \<not> ok" by simp
        qed
        show "\<forall>ok x. Call_askConfirmation ''Perform backup'' False (ok, Some x) \<in> set tr \<longrightarrow> out = Returns (Some x)"
        proof (intro allI impI)
          fix ok y assume "Call_askConfirmation ''Perform backup'' False (ok, Some y) \<in> set tr"
          then have "(ok, Some y) = ?a" by (rule only)
          then have "snd ?a = Some y" by (metis snd_conv)
          with Some o show "out = Returns (Some y)" by simp
        qed
        show "force c \<longrightarrow> \<not> (prepareHelper e [] = None \<and> snd (mgr_Streams e [Call_prepareHelper None]) = None
                   \<and> fst (mgr_Streams e [Call_prepareHelper None]) \<noteq> [])" using nf by simp
      qed
    next
      case None
      show ?thesis
      proof (cases "fst ?a")
        case False
        with F(3) nf None have o: "out = Returns None" and t: "tr = tr3 @ [?ask]" by simp_all
        have only: "r = ?a" if "Call_askConfirmation ''Perform backup'' False r \<in> set tr" for r
          using ask_last[OF K(2)] that unfolding t by blast
        show ?thesis
        proof (rule stopped)
          show "\<forall>ev \<in> set tr. \<not> fs_change ev" using K(1) t by simp
          show "force c \<longrightarrow> (\<forall>ev \<in> set tr. \<not> is_ask ev)" using nf by simp
          show "\<forall>ok. Call_askConfirmation ''Perform backup'' False (ok, None) \<in> set tr \<longrightarrow> out = Returns None \<and> \<not> ok"
          proof (intro allI impI)
            fix ok assume "Call_askConfirmation ''Perform backup'' False (ok, None) \<in> set tr"
            then have "(ok, None) = ?a" by (rule only)
            then have "fst ?a = ok" by (metis fst_conv)
            with False o show "out = Returns None \<and> \<not> ok" by simp
          qed
          show "\<forall>ok x. Call_askConfirmation ''Perform backup'' False (ok, Some x) \<in> set tr \<longrightarrow> out = Returns (Some x)"
          proof (intro allI impI)
            fix ok y assume "Call_askConfirmation ''Perform backup'' False (ok, Some y) \<in> set tr"
            then have "(ok, Some y) = ?a" by (rule only)
            then have "snd ?a = Some y" by (metis snd_conv)
            with None show "out = Returns (Some y)" by simp
          qed
          show "force c \<longrightarrow> \<not> (prepareHelper e [] = None \<and> snd (mgr_Streams e [Call_prepareHelper None]) = None
                   \<and> fst (mgr_Streams e [Call_prepareHelper None]) \<noteq> [])" using nf by simp
        qed
      next
        case yes: True
        with F(3) nf None have P: "backup_phase e c (fst (mgr_Streams e [Call_prepareHelper None])) (tr3 @ [?ask]) = (out, tr)"
          by (simp add: streams_def)
        have A: "?a = (True, None)" using yes None by (simp add: prod_eq_iff)
        from backup_phase_trace[OF P] obtain r rest where R:
          "tr = (tr3 @ [?ask]) @ [Call_MkdirAll (backupDirectory c) 448 r] @ rest"
          "\<forall>ev \<in> set rest. \<not> is_ask ev"
          "case r of
            Some x \<Rightarrow> out = Returns (Some x) \<and> rest = []
          | None \<Rightarrow>
             (\<exists>evs. rest = evs
                   @ report ''Backup Warnings: \<newline>'' (warnings_of (backup_calls evs))
                   @ report ''Backup failures: \<newline>'' (failures_of (backup_calls evs))
               \<and> map fst (backup_calls evs) = map (backup_args e c) (fst (mgr_Streams e [Call_prepareHelper None]))
               \<and> (\<forall>a x. (a, Some x) \<in> set (backup_calls evs) \<longrightarrow> failed_line a x \<in> set evs)
               \<and> out = (if failures_of (backup_calls evs) \<noteq> []
                         \<or> warnings_of (backup_calls evs) \<noteq> [] \<and> failOnWarn c
                      then Returns (Some (ErrorString ''backup failed'')) else Returns None))"
          by blast
        show ?thesis
        proof (rule started[of "tr3 @ [?ask]" r rest])
          show "tr = (tr3 @ [?ask]) @ [Call_MkdirAll (backupDirectory c) 448 r] @ rest" by (rule R(1))
          show "\<forall>ev \<in> set (tr3 @ [?ask]). \<not> fs_change ev" using K(1) by simp
          show "force c \<longrightarrow> (\<forall>ev \<in> set (tr3 @ [?ask]). \<not> is_ask ev)" using nf by simp
          show "\<not> force c \<longrightarrow> (\<exists>p. tr3 @ [?ask] = p @ [Call_askConfirmation ''Perform backup'' False (True, None)]
                            \<and> (\<forall>ev \<in> set p. \<not> is_ask ev))"
            using K(2) A by simp
          show "\<forall>ev \<in> set rest. \<not> is_ask ev" by (rule R(2))
          show "case r of
            Some x \<Rightarrow> out = Returns (Some x) \<and> rest = []
          | None \<Rightarrow>
             (\<exists>evs. rest = evs
                   @ report ''Backup Warnings: \<newline>'' (warnings_of (backup_calls evs))
                   @ report ''Backup failures: \<newline>'' (failures_of (backup_calls evs))
               \<and> map fst (backup_calls evs) = map (backup_args e c) (fst (mgr_Streams e [Call_prepareHelper None]))
               \<and> (\<forall>a x. (a, Some x) \<in> set (backup_calls evs) \<longrightarrow> failed_line a x \<in> set evs)
               \<and> out = (if failures_of (backup_calls evs) \<noteq> []
                         \<or> warnings_of (backup_calls evs) \<noteq> [] \<and> failOnWarn c
                      then Returns (Some (ErrorString ''backup failed'')) else Returns None))"
            by (rule R(3))
        qed
      qed
    qed
  qed
qed

text \<open>A run that created the root directory went through the whole loop and ends
  with the two reports.\<close>

lemma backupAction_reached:
  assumes "backupAction e c = (out, tr)"
    and "Call_MkdirAll (backupDirectory c) 448 None \<in> set tr"
  shows "(\<exists>pre. tr = pre @ report ''Backup Warnings: \<newline>'' (warnings_of (backup_calls tr))
                    @ report ''Backup failures: \<newline>'' (failures_of (backup_calls tr)))
      \<and> map fst (backup_calls tr) = map (backup_args e c) (fst (mgr_Streams e [Call_prepareHelper None]))
      \<and> (\<forall>a x. (a, Some x) \<in> set (backup_calls tr) \<longrightarrow> failed_line a x \<in> set tr)
      \<and> out = (if failures_of (backup_calls tr) \<noteq> [] \<or> warnings_of (backup_calls tr) \<noteq> [] \<and> failOnWarn c
               then Returns (Some (ErrorString ''backup failed'')) else Returns None)"
  using assms(1)
proof (cases rule: backupAction_shape)
  case stopped
  have "fs_change (Call_MkdirAll (backupDirectory c) 448 None)" by simp
  with stopped(1) assms(2) have False by blast
  then show ?thesis ..
next
  case (started pre r rest)
  have no: "Call_MkdirAll (backupDirectory c) 448 None \<notin> set pre"
    using started(2) by force
  show ?thesis
  proof (cases r)
    case (Some x)
    with started(1,6) have "tr = pre @ [Call_MkdirAll (backupDirectory c) 448 (Some x)]" by simp
    with assms(2) no have False by simp
    then show ?thesis ..
  next
    case None
    from started(6) have "\<exists>evs. rest = evs @ report ''Backup Warnings: \<newline>'' (warnings_of (backup_calls evs))
                  @ report ''Backup failures: \<newline>'' (failures_of (backup_calls evs))
        \<and> map fst (backup_calls evs) = map (backup_args e c) (fst (mgr_Streams e [Call_prepareHelper None]))
        \<and> (\<forall>a x. (a, Some x) \<in> set (backup_calls evs) \<longrightarrow> failed_line a x \<in> set evs)
        \<and> out = (if failures_of (backup_calls evs) \<noteq> []
                         \<or> warnings_of (backup_calls evs) \<noteq> [] \<and> failOnWarn c
                      then Returns (Some (ErrorString ''backup failed'')) else Returns None)"
      unfolding None by (simp only: option.case)
    then obtain evs where E: "rest = evs @ report ''Backup Warnings: \<newline>'' (warnings_of (backup_calls evs))
                  @ report ''Backup failures: \<newline>'' (failures_of (backup_calls evs))
        \<and> map fst (backup_calls evs) = map (backup_args e c) (fst (mgr_Streams e [Call_prepareHelper None]))
        \<and> (\<forall>a x. (a, Some x) \<in> set (backup_calls evs) \<longrightarrow> failed_line a x \<in> set evs)
        \<and> out = (if failures_of (backup_calls evs) \<noteq> []
                         \<or> warnings_of (backup_calls evs) \<noteq> [] \<and> failOnWarn c
                      then Returns (Some (ErrorString ''backup failed'')) else Returns None)" ..
    from E have evs1: "rest = evs @ report ''Backup Warnings: \<newline>'' (warnings_of (backup_calls evs))
                  @ report ''Backup failures: \<newline>'' (failures_of (backup_calls evs))"
      by (elim conjE)
    from E have evs2: "map fst (backup_calls evs) = map (backup_args e c) (fst (mgr_Streams e [Call_prepareHelper None]))"
      by (elim conjE)
    from E have evs3: "\<forall>a x. (a, Some x) \<in> set (backup_calls evs) \<longrightarrow> failed_line a x \<in> set evs"
      by (elim conjE)
    from E have evs4: "out = (if failures_of (backup_calls evs) \<noteq> []
                         \<or> warnings_of (backup_calls evs) \<noteq> [] \<and> failOnWarn c
                      then Returns (Some (ErrorString ''backup failed'')) else Returns None)"
      by (elim conjE)
    have t: "tr = pre @ [Call_MkdirAll (backupDirectory c) 448 None] @ evs
                @ report ''Backup Warnings: \<newline>'' (warnings_of (backup_calls evs))
                @ report ''Backup failures: \<newline>'' (failures_of (backup_calls evs))"
      using started(1) None evs1 by simp
    have bc: "backup_calls tr = backup_calls evs"
      unfolding t using started(2) by (rule backup_calls_evs)
    have "tr = (pre @ [Call_MkdirAll (backupDirectory c) 448 None] @ evs)
           @ report ''Backup Warnings: \<newline>'' (warnings_of (backup_calls tr))
           @ report ''Backup failures: \<newline>'' (failures_of (backup_calls tr))"
      unfolding bc using t by simp
    then have 1: "\<exists>pre. tr = pre @ report ''Backup Warnings: \<newline>'' (warnings_of (backup_calls tr))
                    @ report ''Backup failures: \<newline>'' (failures_of (backup_calls tr))"
      by (rule exI[of _ "pre @ [Call_MkdirAll (backupDirectory c) 448 None] @ evs"])
    have "set evs \<subseteq> set tr" by (subst t) auto
    then have 2: "\<forall>a x. (a, Some x) \<in> set (backup_calls tr) \<longrightarrow> failed_line a x \<in> set tr"
      using evs3 unfolding bc by blast
    have 3: "map fst (backup_calls tr) = map (backup_args e c) (fst (mgr_Streams e [Call_prepareHelper None]))"
      unfolding bc by (rule evs2)
    have 4: "out = (if failures_of (backup_calls tr) \<noteq> [] \<or> warnings_of (backup_calls tr) \<noteq> [] \<and> failOnWarn c
               then Returns (Some (ErrorString ''backup failed'')) else Returns None)"
      unfolding bc by (rule evs4)
    from 1 3 2 4 show ?thesis by (intro conjI)
  qed
qed

subsection \<open>The result of a backup run\<close>

text \<open>
  Claim C1. A run of \<open>backupAction\<close> that reaches the per-stream backup phase (its
  trace holds the successful creation of the root directory) returns an error if
  and only if at least one call of the backup primitive was a Failure, or at
  least one was a Warning and \<open>failOnWarn\<close> is set; otherwise it returns nil, also
  when streams were skipped with a Warning.
\<close>

theorem backup_final_result:
  assumes "backupAction e c = (out, tr)"
    and "Call_MkdirAll (backupDirectory c) 448 None \<in> set tr"
  shows "((\<exists>x. out = Returns (Some x)) \<longleftrightarrow>
            (\<exists>cr \<in> set (backup_calls tr). is_Failure (snd cr))
            \<or> (\<exists>cr \<in> set (backup_calls tr). is_Warning (snd cr)) \<and> failOnWarn c)
       \<and> (out = Returns None \<longleftrightarrow>
            \<not> ((\<exists>cr \<in> set (backup_calls tr). is_Failure (snd cr))
               \<or> (\<exists>cr \<in> set (backup_calls tr). is_Warning (snd cr)) \<and> failOnWarn c))"
proof -
  from backupAction_reached[OF assms] have
    "out = (if failures_of (backup_calls tr) \<noteq> [] \<or> warnings_of (backup_calls tr) \<noteq> [] \<and> failOnWarn c
               then Returns (Some (ErrorString ''backup failed'')) else Returns None)"
    by (elim conjE)
  then show ?thesis
    unfolding warnings_of_empty failures_of_empty by (simp split: if_splits)
qed

theorem backup_final_result_witness:
  "Call_MkdirAll (backupDirectory cmd_demo) 448 None \<in> set (snd (backupAction env_warn cmd_demo))
   \<and> (\<exists>cr \<in> set (backup_calls (snd (backupAction env_warn cmd_demo))). is_Warning (snd cr))
   \<and> \<not> failOnWarn cmd_demo
   \<and> fst (backupAction env_warn cmd_demo) = Returns None"
proof -
  have h1: "backupAction env_warn cmd_demo
      = (fst (backupAction env_warn cmd_demo), snd (backupAction env_warn cmd_demo))" by simp
  have h2: "Call_MkdirAll (backupDirectory cmd_demo) 448 None \<in> set (snd (backupAction env_warn cmd_demo))"
    by code_simp
  have w: "\<exists>cr \<in> set (backup_calls (snd (backupAction env_warn cmd_demo))). is_Warning (snd cr)"
    by code_simp
  have nf: "\<not> (\<exists>cr \<in> set (backup_calls (snd (backupAction env_warn cmd_demo))). is_Failure (snd cr))"
    by code_simp
  have now: "\<not> failOnWarn cmd_demo" by code_simp
  from backup_final_result[OF h1 h2] nf now
  have "fst (backupAction env_warn cmd_demo) = Returns None" by blast
  with h2 w now show ?thesis by blast
qed

text \<open>
  Claim C3. In a run that reaches the per-stream backup phase, every enumerated
  stream gets its call of the backup primitive, in the order of enumeration,
  whatever the earlier calls returned: no error of one stream ends the loop. The
  run ends with the report of the warnings, which holds one record for each call
  that returned the memory-stream error, and the report of the failures, which
  holds one record for each call that returned any other error; a call that
  returned nil is in neither.
\<close>

theorem backup_classification:
  assumes "backupAction e c = (out, tr)"
    and "Call_MkdirAll (backupDirectory c) 448 None \<in> set tr"
  shows "map (streamHandle \<circ> fst) (backup_calls tr) = fst (mgr_Streams e [Call_prepareHelper None])
       \<and> (\<exists>pre. tr = pre @ report ''Backup Warnings: \<newline>'' (warnings_of (backup_calls tr))
                    @ report ''Backup failures: \<newline>'' (failures_of (backup_calls tr)))"
proof -
  from backupAction_reached[OF assms] have
    m: "map fst (backup_calls tr) = map (backup_args e c) (fst (mgr_Streams e [Call_prepareHelper None]))"
    by (elim conjE)
  from backupAction_reached[OF assms] have
    r: "\<exists>pre. tr = pre @ report ''Backup Warnings: \<newline>'' (warnings_of (backup_calls tr))
                    @ report ''Backup failures: \<newline>'' (failures_of (backup_calls tr))"
    by (elim conjE)
  have "map (streamHandle \<circ> fst) (backup_calls tr) = map streamHandle (map fst (backup_calls tr))"
    by simp
  also have "\<dots> = fst (mgr_Streams e [Call_prepareHelper None])"
    unfolding m by (simp add: backup_args_def comp_def)
  finally show ?thesis using r by (intro conjI)
qed

theorem backup_classification_witness:
  "Call_MkdirAll (backupDirectory cmd_demo) 448 None \<in> set (snd (backupAction env_demo cmd_demo))
   \<and> map (streamHandle \<circ> fst) (backup_calls (snd (backupAction env_demo cmd_demo)))
       = [Stream ''ORDERS'', Stream ''CACHE'', Stream ''AUDIT'']
   \<and> warnings_of (backup_calls (snd (backupAction env_demo cmd_demo)))
       = [ErrorfW ''%s: %w'' ''CACHE'' ErrMemoryStreamNotSupported]
   \<and> failures_of (backup_calls (snd (backupAction env_demo cmd_demo)))
       = [ErrorfS ''%s: %s'' ''AUDIT'' (ErrorString ''timeout'')]"
proof -
  have h1: "backupAction env_demo cmd_demo
      = (fst (backupAction env_demo cmd_demo), snd (backupAction env_demo cmd_demo))" by simp
  have h2: "Call_MkdirAll (backupDirectory cmd_demo) 448 None \<in> set (snd (backupAction env_demo cmd_demo))"
    by code_simp
  have s: "fst (mgr_Streams env_demo [Call_prepareHelper None])
      = [Stream ''ORDERS'', Stream ''CACHE'', Stream ''AUDIT'']" by (simp add: env_demo_def)
  have w: "warnings_of (backup_calls (snd (backupAction env_demo cmd_demo)))
       = [ErrorfW ''%s: %w'' ''CACHE'' ErrMemoryStreamNotSupported]" by code_simp
  have f: "failures_of (backup_calls (snd (backupAction env_demo cmd_demo)))
       = [ErrorfS ''%s: %s'' ''AUDIT'' (ErrorString ''timeout'')]" by code_simp
  from backup_classification[OF h1 h2] have
    "map (streamHandle \<circ> fst) (backup_calls (snd (backupAction env_demo cmd_demo)))
       = fst (mgr_Streams env_demo [Call_prepareHelper None])" by (rule conjunct1)
  with s h2 w f show ?thesis by simp
qed



text \<open>
  Claim C10. Whenever a run that reaches the per-stream backup phase fails under
  the final-result rule, the value returned is the one error
  \<open>backup failed\<close>, which wraps no other error, whichever and however many streams
  failed or warned; the detail of each stream is in the printed lines only: for
  every call that returned an error the trace holds the line with the name of the
  stream and that error.
\<close>

theorem backup_failed_constant:
  assumes "backupAction e c = (out, tr)"
    and "Call_MkdirAll (backupDirectory c) 448 None \<in> set tr"
    and "(\<exists>cr \<in> set (backup_calls tr). is_Failure (snd cr))
            \<or> (\<exists>cr \<in> set (backup_calls tr). is_Warning (snd cr)) \<and> failOnWarn c"
  shows "out = Returns (Some (ErrorString ''backup failed''))
       \<and> Unwrap (ErrorString ''backup failed'') = None
       \<and> (\<forall>a x. Call_backupStream a (Some x) \<in> set tr \<longrightarrow> failed_line a x \<in> set tr)"
proof -
  from backupAction_reached[OF assms(1,2)] have
    o: "out = (if failures_of (backup_calls tr) \<noteq> [] \<or> warnings_of (backup_calls tr) \<noteq> [] \<and> failOnWarn c
               then Returns (Some (ErrorString ''backup failed'')) else Returns None)"
    by (elim conjE)
  from backupAction_reached[OF assms(1,2)] have
    l: "\<forall>a x. (a, Some x) \<in> set (backup_calls tr) \<longrightarrow> failed_line a x \<in> set tr"
    by (elim conjE)
  from assms(3) have "failures_of (backup_calls tr) \<noteq> [] \<or> warnings_of (backup_calls tr) \<noteq> [] \<and> failOnWarn c"
    unfolding warnings_of_empty failures_of_empty .
  with o have "out = Returns (Some (ErrorString ''backup failed''))" by simp
  moreover have "Unwrap (ErrorString ''backup failed'') = None" by simp
  moreover have "\<forall>a x. Call_backupStream a (Some x) \<in> set tr \<longrightarrow> failed_line a x \<in> set tr"
    using l by (simp add: backup_calls_in_set)
  ultimately show ?thesis by (intro conjI)
qed

theorem backup_failed_constant_witness:
  "Call_MkdirAll (backupDirectory cmd_demo) 448 None \<in> set (snd (backupAction env_demo cmd_demo))
   \<and> (\<exists>cr \<in> set (backup_calls (snd (backupAction env_demo cmd_demo))). is_Failure (snd cr))
   \<and> fst (backupAction env_demo cmd_demo) = Returns (Some (ErrorString ''backup failed''))"
proof -
  have h1: "backupAction env_demo cmd_demo
      = (fst (backupAction env_demo cmd_demo), snd (backupAction env_demo cmd_demo))" by simp
  have h2: "Call_MkdirAll (backupDirectory cmd_demo) 448 None \<in> set (snd (backupAction env_demo cmd_demo))"
    by code_simp
  have f: "\<exists>cr \<in> set (backup_calls (snd (backupAction env_demo cmd_demo))). is_Failure (snd cr)"
    by code_simp
  then have h3: "(\<exists>cr \<in> set (backup_calls (snd (backupAction env_demo cmd_demo))). is_Failure (snd cr))
      \<or> (\<exists>cr \<in> set (backup_calls (snd (backupAction env_demo cmd_demo))). is_Warning (snd cr))
          \<and> failOnWarn cmd_demo" by (rule disjI1)
  from backup_failed_constant[OF h1 h2 h3]
  have "fst (backupAction env_demo cmd_demo) = Returns (Some (ErrorString ''backup failed''))"
    by (rule conjunct1)
  with h2 f show ?thesis by (intro conjI)
qed

subsection \<open>Before the backup phase\<close>

text \<open>
  Claim C6. When the account has no stream (the connection is set up and the
  enumeration returns the empty list without error), the run returns the error
  \<open>no streams found\<close> right after the enumeration, and its trace holds no event
  that changes the file system: no directory is created.
\<close>

theorem backup_no_streams:
  assumes "prepareHelper e [] = None"
    and "mgr_Streams e [Call_prepareHelper None] = ([], None)"
  shows "backupAction e c =
           (Returns (Some (ErrorString ''no streams found'')),
            [Call_prepareHelper None, Call_Streams ([], None)])
       \<and> (\<forall>ev \<in> set (snd (backupAction e c)). \<not> fs_change ev)"
  using assms by (simp add: backupAction_def Let_def)

theorem backup_no_streams_witness:
  "prepareHelper env_empty [] = None
   \<and> mgr_Streams env_empty [Call_prepareHelper None] = ([], None)
   \<and> backupAction env_empty cmd_demo =
       (Returns (Some (ErrorString ''no streams found'')),
        [Call_prepareHelper None, Call_Streams ([], None)])"
proof -
  have h1: "prepareHelper env_empty [] = None" by (simp add: env_empty_def env_demo_def)
  have h2: "mgr_Streams env_empty [Call_prepareHelper None] = ([], None)"
    by (simp add: env_empty_def env_demo_def)
  from backup_no_streams[OF h1 h2, of cmd_demo] h1 h2 show ?thesis by (intro conjI) (elim conjE, assumption)+
qed

text \<open>
  Claim C7. Without \<open>force\<close>, every event that changes the file system comes after
  an affirmative answer of the confirmation; a negative answer ends the run with
  nil and a failure to obtain the answer ends it with that error, in both cases
  with no change of the file system (the root directory is not created). With
  \<open>force\<close> the confirmation is never called and a run that found streams goes on
  to create the root directory.
\<close>

theorem confirmation_gate:
  assumes "backupAction e c = (out, tr)"
  shows "(\<not> force c \<longrightarrow>
            (\<forall>pre ev post. tr = pre @ ev # post \<and> fs_change ev \<longrightarrow>
               Call_askConfirmation ''Perform backup'' False (True, None) \<in> set pre)
          \<and> (Call_askConfirmation ''Perform backup'' False (False, None) \<in> set tr \<longrightarrow>
               out = Returns None \<and> (\<forall>ev \<in> set tr. \<not> fs_change ev))
          \<and> (\<forall>ok x. Call_askConfirmation ''Perform backup'' False (ok, Some x) \<in> set tr \<longrightarrow>
               out = Returns (Some x) \<and> (\<forall>ev \<in> set tr. \<not> fs_change ev)))
       \<and> (force c \<longrightarrow>
            (\<forall>ev \<in> set tr. \<not> is_ask ev)
          \<and> (prepareHelper e [] = None \<and> snd (mgr_Streams e [Call_prepareHelper None]) = None
               \<and> fst (mgr_Streams e [Call_prepareHelper None]) \<noteq> [] \<longrightarrow>
             (\<exists>r. Call_MkdirAll (backupDirectory c) 448 r \<in> set tr)))"
  using assms
proof (cases rule: backupAction_shape)
  case stopped
  have 1: "\<forall>pre ev post. tr = pre @ ev # post \<and> fs_change ev \<longrightarrow>
               Call_askConfirmation ''Perform backup'' False (True, None) \<in> set pre"
    using stopped(1) by auto
  have 2: "Call_askConfirmation ''Perform backup'' False (False, None) \<in> set tr \<longrightarrow>
               out = Returns None \<and> (\<forall>ev \<in> set tr. \<not> fs_change ev)"
    using stopped(1,3) by blast
  have 3: "\<forall>ok x. Call_askConfirmation ''Perform backup'' False (ok, Some x) \<in> set tr \<longrightarrow>
               out = Returns (Some x) \<and> (\<forall>ev \<in> set tr. \<not> fs_change ev)"
    using stopped(1,4) by blast
  have 4: "force c \<longrightarrow>
            (\<forall>ev \<in> set tr. \<not> is_ask ev)
          \<and> (prepareHelper e [] = None \<and> snd (mgr_Streams e [Call_prepareHelper None]) = None
               \<and> fst (mgr_Streams e [Call_prepareHelper None]) \<noteq> [] \<longrightarrow>
             (\<exists>r. Call_MkdirAll (backupDirectory c) 448 r \<in> set tr))"
    using stopped(2,5) by blast
  have L: "\<not> force c \<longrightarrow>
            (\<forall>pre ev post. tr = pre @ ev # post \<and> fs_change ev \<longrightarrow>
               Call_askConfirmation ''Perform backup'' False (True, None) \<in> set pre)
          \<and> (Call_askConfirmation ''Perform backup'' False (False, None) \<in> set tr \<longrightarrow>
               out = Returns None \<and> (\<forall>ev \<in> set tr. \<not> fs_change ev))
          \<and> (\<forall>ok x. Call_askConfirmation ''Perform backup'' False (ok, Some x) \<in> set tr \<longrightarrow>
               out = Returns (Some x) \<and> (\<forall>ev \<in> set tr. \<not> fs_change ev))"
    by (rule impI) (rule conjI[OF 1 conjI[OF 2 3]])
  show ?thesis by (rule conjI[OF L 4])
next
  case (started pre r rest)
  have order: "Call_askConfirmation ''Perform backup'' False (True, None) \<in> set p"
    if nf: "\<not> force c" and sp: "tr = p @ ev # post" and fc: "fs_change ev" for p ev post
  proof -
    from started(1) sp have "pre @ ([Call_MkdirAll (backupDirectory c) 448 r] @ rest) = p @ ev # post" by simp
    from prefix_before[OF this, of fs_change] started(2) fc obtain us where "p = pre @ us" by blast
    moreover from started(4) nf have "Call_askConfirmation ''Perform backup'' False (True, None) \<in> set pre"
      by auto
    ultimately show ?thesis by simp
  qed
  have asks: "a = (True, None)"
    if nf: "\<not> force c" and m: "Call_askConfirmation ''Perform backup'' False a \<in> set tr" for a
  proof -
    from started(4) nf obtain p where p: "pre = p @ [Call_askConfirmation ''Perform backup'' False (True, None)]"
       "\<forall>ev \<in> set p. \<not> is_ask ev" by blast
    have "\<not> is_ask (Call_MkdirAll (backupDirectory c) 448 r)" by simp
    with m started(1,5) have "Call_askConfirmation ''Perform backup'' False a \<in> set pre" by auto
    with p show ?thesis by auto
  qed
  have 1: "\<not> force c \<longrightarrow> (\<forall>pre ev post. tr = pre @ ev # post \<and> fs_change ev \<longrightarrow>
               Call_askConfirmation ''Perform backup'' False (True, None) \<in> set pre)"
    using order by blast
  have 2: "\<not> force c \<longrightarrow> (Call_askConfirmation ''Perform backup'' False (False, None) \<in> set tr \<longrightarrow>
               out = Returns None \<and> (\<forall>ev \<in> set tr. \<not> fs_change ev))"
    using asks[of "(False, None)"] by auto
  have 3: "\<not> force c \<longrightarrow> (\<forall>ok x. Call_askConfirmation ''Perform backup'' False (ok, Some x) \<in> set tr \<longrightarrow>
               out = Returns (Some x) \<and> (\<forall>ev \<in> set tr. \<not> fs_change ev))"
  proof (intro impI allI)
    fix ok x assume "\<not> force c" "Call_askConfirmation ''Perform backup'' False (ok, Some x) \<in> set tr"
    then have "(ok, Some x) = (True, None)" by (rule asks)
    then show "out = Returns (Some x) \<and> (\<forall>ev \<in> set tr. \<not> fs_change ev)" by simp
  qed
  have 4: "force c \<longrightarrow> (\<forall>ev \<in> set tr. \<not> is_ask ev)"
    using started(1,3,5) by auto
  have 5: "\<exists>r. Call_MkdirAll (backupDirectory c) 448 r \<in> set tr"
    using started(1) by (intro exI[of _ r]) simp
  from 1 2 3 4 5 show ?thesis by blast
qed

theorem confirmation_gate_witness:
  "\<not> force cmd_demo
   \<and> Call_askConfirmation ''Perform backup'' False (False, None) \<in> set (snd (backupAction env_no cmd_demo))
   \<and> fst (backupAction env_no cmd_demo) = Returns None
   \<and> filter fs_change (snd (backupAction env_no cmd_demo)) = []
   \<and> force cmd_force
   \<and> filter is_ask (snd (backupAction env_demo cmd_force)) = []
   \<and> (\<exists>r. Call_MkdirAll (backupDirectory cmd_force) 448 r \<in> set (snd (backupAction env_demo cmd_force)))"
proof -
  have h1: "backupAction env_no cmd_demo
      = (fst (backupAction env_no cmd_demo), snd (backupAction env_no cmd_demo))" by simp
  have nf: "\<not> force cmd_demo" by code_simp
  have a: "Call_askConfirmation ''Perform backup'' False (False, None) \<in> set (snd (backupAction env_no cmd_demo))"
    by code_simp
  from confirmation_gate[OF h1] nf a
  have "fst (backupAction env_no cmd_demo) = Returns None
      \<and> (\<forall>ev \<in> set (snd (backupAction env_no cmd_demo)). \<not> fs_change ev)" by blast
  then have no: "fst (backupAction env_no cmd_demo) = Returns None
      \<and> filter fs_change (snd (backupAction env_no cmd_demo)) = []"
    by (simp add: filter_empty_conv)
  have h2: "backupAction env_demo cmd_force
      = (fst (backupAction env_demo cmd_force), snd (backupAction env_demo cmd_force))" by simp
  have f: "force cmd_force" by code_simp
  have s: "prepareHelper env_demo [] = None \<and> snd (mgr_Streams env_demo [Call_prepareHelper None]) = None
      \<and> fst (mgr_Streams env_demo [Call_prepareHelper None]) \<noteq> []" by (simp add: env_demo_def)
  from confirmation_gate[OF h2] f s
  have "(\<forall>ev \<in> set (snd (backupAction env_demo cmd_force)). \<not> is_ask ev)
      \<and> (\<exists>r. Call_MkdirAll (backupDirectory cmd_force) 448 r \<in> set (snd (backupAction env_demo cmd_force)))"
    by blast
  then have yes: "filter is_ask (snd (backupAction env_demo cmd_force)) = []
      \<and> (\<exists>r. Call_MkdirAll (backupDirectory cmd_force) 448 r \<in> set (snd (backupAction env_demo cmd_force)))"
    by (simp add: filter_empty_conv)
  from nf a no f yes show ?thesis by (intro conjI) (elim conjE, assumption)+
qed




section \<open>Properties of restoreAction\<close>

subsection \<open>Traces of the iterations\<close>

lemma restore_calls_append: "restore_calls (xs @ ys) = restore_calls xs @ restore_calls ys"
  by (induction xs rule: restore_calls.induct) simp_all

lemma stat_calls_append: "stat_calls (xs @ ys) = stat_calls xs @ stat_calls ys"
  by (induction xs rule: stat_calls.induct) simp_all

lemma restore_calls_stat_events: "restore_calls (stat_events sts) = []"
  by (induction sts) (auto simp add: stat_events_def)

lemma stat_calls_stat_events: "stat_calls (stat_events sts) = sts"
  by (induction sts) (auto simp add: stat_events_def)

lemma restore_calls_restore_events: "restore_calls (restore_events rs) = rs"
  by (induction rs) (auto simp add: restore_events_def)

lemma stat_calls_restore_events: "stat_calls (restore_events rs) = []"
  by (induction rs) (auto simp add: restore_events_def)

lemma stat_events_kind: "ev \<in> set (stat_events sts) \<Longrightarrow> \<not> is_restore ev"
  by (auto simp add: stat_events_def)

lemma stat_passed:
  assumes "map fst sts = map f de" and "map snd sts = replicate (length de) None" and "d \<in> set de"
  shows "Call_Stat (f d) None \<in> set (stat_events sts)"
proof -
  from assms(3) obtain i where i: "i < length de" "de ! i = d" by (auto simp add: in_set_conv_nth)
  from assms(1) have len: "length sts = length de" by (metis length_map)
  have "fst (sts ! i) = f d" using assms(1) i len by (metis nth_map)
  moreover have "snd (sts ! i) = None" using assms(2) i len by (metis nth_map nth_replicate)
  ultimately have "sts ! i = (f d, None)" by (simp add: prod_eq_iff)
  then have "(f d, None) \<in> set sts" using i len by (metis nth_mem)
  then show ?thesis by (force simp add: stat_events_def)
qed

lemma restore_events_in: "Call_restoreAction s r \<in> set tr \<Longrightarrow> (s, r) \<in> set (restore_calls tr)"
  by (induction tr rule: restore_calls.induct) auto

lemma existingStreams_fold:
  "fold (\<lambda>n m. m(n \<mapsto> ())) ns m0 k \<noteq> None \<longleftrightarrow> k \<in> set ns \<or> m0 k \<noteq> None"
  by (induction ns arbitrary: m0) auto

lemma existingStreams_iff: "existingStreams names k \<noteq> None \<longleftrightarrow> k \<in> set names"
  using existingStreams_fold[of names Map.empty k] by (simp add: existingStreams_def)

lemma validate_loop_trace:
  "validate_loop e c ex None ds tr = (res, tr') \<Longrightarrow>
   \<exists>sts. tr' = tr @ stat_events sts
     \<and> map fst sts = map (manifest_path e c) (take (length sts) ds)
     \<and> (res = None \<longrightarrow> map snd sts = replicate (length ds) None
           \<and> (\<forall>d \<in> set ds. ex (DirEntry_Name d) = None \<and> (\<exists>t. os_Stat e t (manifest_path e c d) = None)))
     \<and> (\<forall>out. res = Some out \<longrightarrow> is_Fatal out)"
proof (induction ds arbitrary: tr)
  case Nil
  then show ?case by (intro exI[of _ "[]"]) (auto simp add: stat_events_def)
next
  case (Cons d ds)
  let ?p = "manifest_path e c d"
  show ?case
  proof (cases "ex (DirEntry_Name d) = None")
    case False
    with Cons.prems have "res = Some (Fatal None ''stream %q exists already'' [ArgString (DirEntry_Name d)])" "tr' = tr"
      by auto
    then show ?thesis by (intro exI[of _ "[]"]) (simp add: stat_events_def)
  next
    case free: True
    show ?thesis
    proof (cases "os_Stat e tr ?p")
      case (Some x)
      with Cons.prems free have "res = Some (Fatal (Some x) ''expected backup.json'' [])"
        "tr' = tr @ [Call_Stat ?p (Some x)]"
        by (auto simp add: manifest_path_def Let_def)
      then show ?thesis by (intro exI[of _ "[(?p, Some x)]"]) (simp add: stat_events_def)
    next
      case None
      with Cons.prems free have "validate_loop e c ex None ds (tr @ [Call_Stat ?p None]) = (res, tr')"
        by (auto simp add: manifest_path_def Let_def)
      from Cons.IH[OF this] obtain sts where sts:
        "tr' = (tr @ [Call_Stat ?p None]) @ stat_events sts"
        "map fst sts = map (manifest_path e c) (take (length sts) ds)"
        "res = None \<longrightarrow> map snd sts = replicate (length ds) None
           \<and> (\<forall>d \<in> set ds. ex (DirEntry_Name d) = None \<and> (\<exists>t. os_Stat e t (manifest_path e c d) = None))"
        "\<forall>out. res = Some out \<longrightarrow> is_Fatal out" by blast
      show ?thesis
      proof (intro exI[of _ "(?p, None) # sts"] conjI)
        show "tr' = tr @ stat_events ((?p, None) # sts)" using sts(1) by (simp add: stat_events_def)
        show "map fst ((?p, None) # sts) = map (manifest_path e c) (take (length ((?p, None) # sts)) (d # ds))"
          using sts(2) by simp
        show "res = None \<longrightarrow> map snd ((?p, None) # sts) = replicate (length (d # ds)) None
           \<and> (\<forall>d \<in> set (d # ds). ex (DirEntry_Name d) = None \<and> (\<exists>t. os_Stat e t (manifest_path e c d) = None))"
          using sts(3) free None by auto
        show "\<forall>out. res = Some out \<longrightarrow> is_Fatal out" by (rule sts(4))
      qed
    qed
  qed
qed

text \<open>A validation that ends the run found a collision or a manifest whose
  \<open>os.Stat\<close> failed.\<close>

lemma validate_loop_fails:
  "validate_loop e c ex None ds tr = (Some out, tr') \<Longrightarrow>
   (\<exists>d \<in> set ds. ex (DirEntry_Name d) \<noteq> None) \<or> (\<exists>sc \<in> set (stat_calls tr'). snd sc \<noteq> None)"
proof (induction ds arbitrary: tr)
  case Nil
  then show ?case by simp
next
  case (Cons d ds)
  let ?p = "manifest_path e c d"
  show ?case
  proof (cases "ex (DirEntry_Name d) = None")
    case False
    then show ?thesis by simp
  next
    case free: True
    show ?thesis
    proof (cases "os_Stat e tr ?p")
      case (Some x)
      with Cons.prems free have "tr' = tr @ [Call_Stat ?p (Some x)]"
        by (auto simp add: manifest_path_def Let_def)
      then have "(?p, Some x) \<in> set (stat_calls tr')" by (simp add: stat_calls_append)
      then have "\<exists>sc \<in> set (stat_calls tr'). snd sc \<noteq> None" by force
      then show ?thesis by (rule disjI2)
    next
      case None
      with Cons.prems free have "validate_loop e c ex None ds (tr @ [Call_Stat ?p None]) = (Some out, tr')"
        by (auto simp add: manifest_path_def Let_def)
      from Cons.IH[OF this] show ?thesis by auto
    qed
  qed
qed

lemma restore_loop_trace:
  "restore_loop e c ds tr = (res, tr') \<Longrightarrow>
   \<exists>rs. tr' = tr @ restore_events rs
     \<and> map fst rs = map (restore_cmd e c) (take (length rs) ds)
     \<and> length rs \<le> length ds
     \<and> (\<forall>i x. i < length rs \<and> snd (rs ! i) = Some x \<longrightarrow>
           Suc i = length rs
         \<and> res = Some (Fatal (Some x) ''restore for %s failed'' [ArgString (DirEntry_Name (ds ! i))]))
     \<and> ((\<forall>cr \<in> set rs. snd cr = None) \<longrightarrow> length rs = length ds \<and> res = None)"
proof (induction ds arbitrary: tr)
  case Nil
  then show ?case by (intro exI[of _ "[]"]) (auto simp add: restore_events_def)
next
  case (Cons d ds)
  let ?s = "restore_cmd e c d"
  show ?case
  proof (cases "streamCmd_restoreAction e tr ?s")
    case (Some x)
    with Cons.prems have "res = Some (Fatal (Some x) ''restore for %s failed'' [ArgString (DirEntry_Name d)])"
      "tr' = tr @ [Call_restoreAction ?s (Some x)]"
      by (auto simp add: Let_def)
    then show ?thesis by (intro exI[of _ "[(?s, Some x)]"]) (simp add: restore_events_def)
  next
    case None
    with Cons.prems have "restore_loop e c ds (tr @ [Call_restoreAction ?s None]) = (res, tr')"
      by (auto simp add: Let_def)
    from Cons.IH[OF this] obtain rs where rs:
      "tr' = (tr @ [Call_restoreAction ?s None]) @ restore_events rs"
      "map fst rs = map (restore_cmd e c) (take (length rs) ds)"
      "length rs \<le> length ds"
      "\<forall>i x. i < length rs \<and> snd (rs ! i) = Some x \<longrightarrow>
           Suc i = length rs
         \<and> res = Some (Fatal (Some x) ''restore for %s failed'' [ArgString (DirEntry_Name (ds ! i))])"
      "(\<forall>cr \<in> set rs. snd cr = None) \<longrightarrow> length rs = length ds \<and> res = None" by blast
    show ?thesis
    proof (intro exI[of _ "(?s, None) # rs"] conjI)
      show "tr' = tr @ restore_events ((?s, None) # rs)" using rs(1) by (simp add: restore_events_def)
      show "map fst ((?s, None) # rs) = map (restore_cmd e c) (take (length ((?s, None) # rs)) (d # ds))"
        using rs(2) by simp
      show "length ((?s, None) # rs) \<le> length (d # ds)" using rs(3) by simp
      show "\<forall>i x. i < length ((?s, None) # rs) \<and> snd (((?s, None) # rs) ! i) = Some x \<longrightarrow>
           Suc i = length ((?s, None) # rs)
         \<and> res = Some (Fatal (Some x) ''restore for %s failed'' [ArgString (DirEntry_Name ((d # ds) ! i))])"
      proof (intro allI impI)
        fix i x assume a: "i < length ((?s, None) # rs) \<and> snd (((?s, None) # rs) ! i) = Some x"
        show "Suc i = length ((?s, None) # rs)
         \<and> res = Some (Fatal (Some x) ''restore for %s failed'' [ArgString (DirEntry_Name ((d # ds) ! i))])"
        proof (cases i)
          case 0
          with a show ?thesis by simp
        next
          case (Suc j)
          with a have "j < length rs \<and> snd (rs ! j) = Some x" by simp
          with rs(4) have J: "Suc j = length rs
            \<and> res = Some (Fatal (Some x) ''restore for %s failed'' [ArgString (DirEntry_Name (ds ! j))])"
            by blast
          from Suc have n: "(d # ds) ! i = ds ! j" by simp
          from J Suc have l: "Suc i = length ((?s, None) # rs)" by simp
          from J show ?thesis unfolding n using l by (intro conjI) (elim conjE, assumption)+
        qed
      qed
      show "(\<forall>cr \<in> set ((?s, None) # rs). snd cr = None) \<longrightarrow> length ((?s, None) # rs) = length (d # ds) \<and> res = None"
        using rs(5) by simp
    qed
  qed
qed

subsection \<open>The shape of a run\<close>

lemma restoreAction_shape:
  assumes "restoreAction e c = (out, tr)"
    and "prepareHelper e [] = None"
    and "mgr_StreamNames e [Call_prepareHelper None] = (names, None)"
    and "os_ReadDir e [Call_prepareHelper None, Call_StreamNames (names, None)] (backupDirectory c) = (de, None)"
  obtains
    (invalid) sts where
      "tr = [Call_prepareHelper None, Call_StreamNames (names, None),
             Call_ReadDir (backupDirectory c) (de, None)] @ stat_events sts"
      "map fst sts = map (manifest_path e c) (take (length sts) de)"
      "is_Fatal out"
      "(\<exists>d \<in> set de. DirEntry_Name d \<in> set names) \<or> (\<exists>sc \<in> set sts. snd sc \<noteq> None)"
  | (valid) sts rs where
      "tr = [Call_prepareHelper None, Call_StreamNames (names, None),
             Call_ReadDir (backupDirectory c) (de, None)] @ stat_events sts
            @ [restoring_line c de] @ restore_events rs"
      "map fst sts = map (manifest_path e c) de"
      "map snd sts = replicate (length de) None"
      "\<forall>d \<in> set de. DirEntry_Name d \<notin> set names \<and> (\<exists>t. os_Stat e t (manifest_path e c d) = None)"
      "map fst rs = map (restore_cmd e c) (take (length rs) de)"
      "\<forall>i x. i < length rs \<and> snd (rs ! i) = Some x \<longrightarrow>
           Suc i = length rs
         \<and> out = Fatal (Some x) ''restore for %s failed'' [ArgString (DirEntry_Name (de ! i))]"
      "(\<forall>cr \<in> set rs. snd cr = None) \<longrightarrow> length rs = length de \<and> out = Returns None"
proof -
  let ?tr2 = "[Call_prepareHelper None, Call_StreamNames (names, None),
             Call_ReadDir (backupDirectory c) (de, None)]"
  obtain res tr3 where V: "validate_loop e c (existingStreams names) None de ?tr2 = (res, tr3)"
    by (metis surj_pair)
  from validate_loop_trace[OF V] obtain sts where sts:
    "tr3 = ?tr2 @ stat_events sts"
    "map fst sts = map (manifest_path e c) (take (length sts) de)"
    "res = None \<longrightarrow> map snd sts = replicate (length de) None
           \<and> (\<forall>d \<in> set de. existingStreams names (DirEntry_Name d) = None
                 \<and> (\<exists>t. os_Stat e t (manifest_path e c d) = None))"
    "\<forall>out. res = Some out \<longrightarrow> is_Fatal out" by blast
  show ?thesis
  proof (cases res)
    case (Some o')
    with assms V have "out = o'" "tr = tr3"
      by (simp_all add: restoreAction_def Let_def)
    with Some sts(4) have fo: "is_Fatal out" by simp
    from V Some have "validate_loop e c (existingStreams names) None de ?tr2 = (Some o', tr3)" by simp
    from validate_loop_fails[OF this]
    have "(\<exists>d \<in> set de. existingStreams names (DirEntry_Name d) \<noteq> None)
        \<or> (\<exists>sc \<in> set (stat_calls tr3). snd sc \<noteq> None)" .
    moreover have "stat_calls tr3 = sts"
      unfolding sts(1) by (simp add: stat_calls_append stat_calls_stat_events)
    ultimately have why: "(\<exists>d \<in> set de. DirEntry_Name d \<in> set names) \<or> (\<exists>sc \<in> set sts. snd sc \<noteq> None)"
      using existingStreams_iff[of names] by auto
    show ?thesis
    proof (rule invalid[of sts])
      show "tr = ?tr2 @ stat_events sts" using \<open>tr = tr3\<close> sts(1) by simp
      show "map fst sts = map (manifest_path e c) (take (length sts) de)" by (rule sts(2))
      show "is_Fatal out" by (rule fo)
      show "(\<exists>d \<in> set de. DirEntry_Name d \<in> set names) \<or> (\<exists>sc \<in> set sts. snd sc \<noteq> None)" by (rule why)
    qed
  next
    case None
    obtain res' tr5 where L: "restore_loop e c de (tr3 @ [restoring_line c de]) = (res', tr5)"
      by (metis surj_pair)
    from restore_loop_trace[OF L] obtain rs where rs:
      "tr5 = (tr3 @ [restoring_line c de]) @ restore_events rs"
      "map fst rs = map (restore_cmd e c) (take (length rs) de)"
      "\<forall>i x. i < length rs \<and> snd (rs ! i) = Some x \<longrightarrow>
           Suc i = length rs
         \<and> res' = Some (Fatal (Some x) ''restore for %s failed'' [ArgString (DirEntry_Name (de ! i))])"
      "(\<forall>cr \<in> set rs. snd cr = None) \<longrightarrow> length rs = length de \<and> res' = None" by blast
    from assms V None L have O: "out = (case res' of Some o' \<Rightarrow> o' | None \<Rightarrow> Returns None)" "tr = tr5"
      by (simp_all add: restoreAction_def Let_def restoring_line_def split: option.splits)
    from None sts(3) have s3: "map snd sts = replicate (length de) None"
      and s4: "\<forall>d \<in> set de. existingStreams names (DirEntry_Name d) = None
                 \<and> (\<exists>t. os_Stat e t (manifest_path e c d) = None)" by simp_all
    from s3 have "length sts = length de" by (metis length_map length_replicate)
    with sts(2) have s2: "map fst sts = map (manifest_path e c) de" by simp
    have s5: "\<forall>d \<in> set de. DirEntry_Name d \<notin> set names \<and> (\<exists>t. os_Stat e t (manifest_path e c d) = None)"
      using s4 existingStreams_iff[of names] by blast
    show ?thesis
    proof (rule valid[of sts rs])
      show "tr = ?tr2 @ stat_events sts @ [restoring_line c de] @ restore_events rs"
        using O(2) rs(1) sts(1) by simp
      show "map fst sts = map (manifest_path e c) de" by (rule s2)
      show "map snd sts = replicate (length de) None" by (rule s3)
      show "\<forall>d \<in> set de. DirEntry_Name d \<notin> set names \<and> (\<exists>t. os_Stat e t (manifest_path e c d) = None)"
        by (rule s5)
      show "map fst rs = map (restore_cmd e c) (take (length rs) de)" by (rule rs(2))
      show "\<forall>i x. i < length rs \<and> snd (rs ! i) = Some x \<longrightarrow>
           Suc i = length rs
         \<and> out = Fatal (Some x) ''restore for %s failed'' [ArgString (DirEntry_Name (de ! i))]"
        using rs(3) O(1) by auto
      show "(\<forall>cr \<in> set rs. snd cr = None) \<longrightarrow> length rs = length de \<and> out = Returns None"
        using rs(4) O(1) by auto
    qed
  qed
qed

subsection \<open>Validation before restoration\<close>

text \<open>
  Claim C2. In a restore run that listed the source root, before the first call
  of the restore primitive every entry of the root has been found free of a
  collision with the streams of the target account and the \<open>os.Stat\<close> of its
  \<open>backup.json\<close> has succeeded. Hence, when the name of any entry is the name of
  an existing stream, or the manifest of any entry is missing (its \<open>os.Stat\<close>
  fails whenever it is asked), the run ends fatally with no restore at all,
  wherever the entry stands in the enumeration.
\<close>

theorem restore_validates_first:
  assumes "restoreAction e c = (out, tr)"
    and "prepareHelper e [] = None"
    and "mgr_StreamNames e [Call_prepareHelper None] = (names, None)"
    and "os_ReadDir e [Call_prepareHelper None, Call_StreamNames (names, None)] (backupDirectory c) = (de, None)"
  shows "(\<forall>pre s r post. tr = pre @ Call_restoreAction s r # post \<longrightarrow>
            (\<forall>d \<in> set de. DirEntry_Name d \<notin> set names
               \<and> Call_Stat (filepath_Join e [backupDirectory c, DirEntry_Name d, ''backup.json'']) None \<in> set pre))
       \<and> ((\<exists>d \<in> set de. DirEntry_Name d \<in> set names) \<longrightarrow> restore_calls tr = [] \<and> is_Fatal out)
       \<and> ((\<exists>d \<in> set de. \<forall>t. os_Stat e t (filepath_Join e [backupDirectory c, DirEntry_Name d, ''backup.json'']) \<noteq> None)
            \<longrightarrow> restore_calls tr = [] \<and> is_Fatal out)"
  using assms
proof (cases rule: restoreAction_shape)
  case (invalid sts)
  have rc: "restore_calls tr = []"
    unfolding invalid(1) by (simp add: restore_calls_append restore_calls_stat_events)
  have 1: "\<forall>pre s r post. tr = pre @ Call_restoreAction s r # post \<longrightarrow>
            (\<forall>d \<in> set de. DirEntry_Name d \<notin> set names
               \<and> Call_Stat (filepath_Join e [backupDirectory c, DirEntry_Name d, ''backup.json'']) None \<in> set pre)"
  proof (intro allI impI)
    fix pre s r post assume "tr = pre @ Call_restoreAction s r # post"
    then have "Call_restoreAction s r \<in> set tr" by simp
    from restore_events_in[OF this] rc have False by simp
    then show "\<forall>d \<in> set de. DirEntry_Name d \<notin> set names
               \<and> Call_Stat (filepath_Join e [backupDirectory c, DirEntry_Name d, ''backup.json'']) None \<in> set pre" ..
  qed
  have 2: "(\<exists>d \<in> set de. DirEntry_Name d \<in> set names) \<longrightarrow> restore_calls tr = [] \<and> is_Fatal out"
    using rc invalid(3) by simp
  have 3: "(\<exists>d \<in> set de. \<forall>t. os_Stat e t (filepath_Join e [backupDirectory c, DirEntry_Name d, ''backup.json'']) \<noteq> None)
            \<longrightarrow> restore_calls tr = [] \<and> is_Fatal out"
    using rc invalid(3) by simp
  show ?thesis by (rule conjI[OF 1 conjI[OF 2 3]])
next
  case (valid sts rs)
  let ?A = "[Call_prepareHelper None, Call_StreamNames (names, None),
             Call_ReadDir (backupDirectory c) (de, None)] @ stat_events sts @ [restoring_line c de]"
  have A: "\<forall>ev \<in> set ?A. \<not> is_restore ev"
    using stat_events_kind[of _ sts] by (auto simp add: restoring_line_def)
  have 1: "\<forall>pre s r post. tr = pre @ Call_restoreAction s r # post \<longrightarrow>
            (\<forall>d \<in> set de. DirEntry_Name d \<notin> set names
               \<and> Call_Stat (filepath_Join e [backupDirectory c, DirEntry_Name d, ''backup.json'']) None \<in> set pre)"
  proof (intro allI impI ballI)
    fix pre s r post d assume sp: "tr = pre @ Call_restoreAction s r # post" and d: "d \<in> set de"
    from valid(1) sp have "?A @ restore_events rs = pre @ Call_restoreAction s r # post" by simp
    from prefix_before[OF this, of is_restore] A obtain us where us: "pre = ?A @ us" by auto
    from stat_passed[OF valid(2,3) d] have "Call_Stat (manifest_path e c d) None \<in> set pre"
      unfolding us by simp
    with valid(4) d show "DirEntry_Name d \<notin> set names
               \<and> Call_Stat (filepath_Join e [backupDirectory c, DirEntry_Name d, ''backup.json'']) None \<in> set pre"
      by (simp add: manifest_path_def)
  qed
  have 2: "(\<exists>d \<in> set de. DirEntry_Name d \<in> set names) \<longrightarrow> restore_calls tr = [] \<and> is_Fatal out"
    using valid(4) by blast
  have 3: "(\<exists>d \<in> set de. \<forall>t. os_Stat e t (filepath_Join e [backupDirectory c, DirEntry_Name d, ''backup.json'']) \<noteq> None)
            \<longrightarrow> restore_calls tr = [] \<and> is_Fatal out"
    using valid(4) unfolding manifest_path_def by blast
  show ?thesis by (rule conjI[OF 1 conjI[OF 2 3]])
qed

theorem restore_validates_first_witness:
  "prepareHelper env_collide [] = None
   \<and> mgr_StreamNames env_collide [Call_prepareHelper None] = ([''AUDIT''], None)
   \<and> os_ReadDir env_collide [Call_prepareHelper None, Call_StreamNames ([''AUDIT''], None)]
        (backupDirectory cmd_demo) = (de_demo, None)
   \<and> (\<exists>d \<in> set de_demo. DirEntry_Name d \<in> set [''AUDIT''])
   \<and> restore_calls (snd (restoreAction env_collide cmd_demo)) = []
   \<and> is_Fatal (fst (restoreAction env_collide cmd_demo))
   \<and> (\<exists>d \<in> set de_demo. \<forall>t.
         os_Stat env_missing t (filepath_Join env_missing [backupDirectory cmd_demo, DirEntry_Name d, ''backup.json''])
           \<noteq> None)
   \<and> restore_calls (snd (restoreAction env_missing cmd_demo)) = []
   \<and> is_Fatal (fst (restoreAction env_missing cmd_demo))"
proof -
  have h1: "restoreAction env_collide cmd_demo
      = (fst (restoreAction env_collide cmd_demo), snd (restoreAction env_collide cmd_demo))" by simp
  have h2: "prepareHelper env_collide [] = None" by (simp add: env_collide_def env_demo_def)
  have h3: "mgr_StreamNames env_collide [Call_prepareHelper None] = ([''AUDIT''], None)"
    by (simp add: env_collide_def env_demo_def)
  have h4: "os_ReadDir env_collide [Call_prepareHelper None, Call_StreamNames ([''AUDIT''], None)]
        (backupDirectory cmd_demo) = (de_demo, None)"
    by (simp add: env_collide_def env_demo_def de_demo_def)
  have col: "\<exists>d \<in> set de_demo. DirEntry_Name d \<in> set [''AUDIT'']" by (simp add: de_demo_def)
  from restore_validates_first[OF h1 h2 h3 h4] col
  have r1: "restore_calls (snd (restoreAction env_collide cmd_demo)) = []
      \<and> is_Fatal (fst (restoreAction env_collide cmd_demo))" by blast
  have g1: "restoreAction env_missing cmd_demo
      = (fst (restoreAction env_missing cmd_demo), snd (restoreAction env_missing cmd_demo))" by simp
  have g2: "prepareHelper env_missing [] = None" by (simp add: env_missing_def env_demo_def)
  have g3: "mgr_StreamNames env_missing [Call_prepareHelper None] = ([''EVENTS''], None)"
    by (simp add: env_missing_def env_demo_def)
  have g4: "os_ReadDir env_missing [Call_prepareHelper None, Call_StreamNames ([''EVENTS''], None)]
        (backupDirectory cmd_demo) = (de_demo, None)"
    by (simp add: env_missing_def env_demo_def de_demo_def)
  have mis: "\<exists>d \<in> set de_demo. \<forall>t.
         os_Stat env_missing t (filepath_Join env_missing [backupDirectory cmd_demo, DirEntry_Name d, ''backup.json''])
           \<noteq> None"
    by (simp add: env_missing_def env_demo_def de_demo_def cmd_demo_def)
  from restore_validates_first[OF g1 g2 g3 g4] mis
  have r2: "restore_calls (snd (restoreAction env_missing cmd_demo)) = []
      \<and> is_Fatal (fst (restoreAction env_missing cmd_demo))" by blast
  from h2 h3 h4 col r1 mis r2 show ?thesis by (intro conjI) (elim conjE, assumption)+
qed

text \<open>
  Claim C4. The manifests are checked and the artifact directories are restored
  along the same enumeration of the source root, each a prefix of it in order;
  every restore gets the cluster and the tags of the command. A restore that
  fails is the last event of the run, which ends fatally naming that entry: no
  later stream is attempted. A run that returns normally has restored every
  entry, and when no entry collides and no check and no restore fails, every
  entry is checked, every entry is restored and the run returns nil.
\<close>

theorem restore_order:
  assumes "restoreAction e c = (out, tr)"
    and "prepareHelper e [] = None"
    and "mgr_StreamNames e [Call_prepareHelper None] = (names, None)"
    and "os_ReadDir e [Call_prepareHelper None, Call_StreamNames (names, None)] (backupDirectory c) = (de, None)"
  shows "map fst (stat_calls tr) =
           map (\<lambda>d. filepath_Join e [backupDirectory c, DirEntry_Name d, ''backup.json''])
             (take (length (stat_calls tr)) de)
       \<and> map fst (restore_calls tr) =
           map (\<lambda>d. \<lparr> msgID = - 1, showProgress = False,
                      s_placementCluster = placementCluster c,
                      s_placementTags = placementTags c,
                      s_backupDirectory = filepath_Join e [backupDirectory c, DirEntry_Name d] \<rparr>)
             (take (length (restore_calls tr)) de)
       \<and> (\<forall>i x. i < length (restore_calls tr) \<and> snd (restore_calls tr ! i) = Some x \<longrightarrow>
             Suc i = length (restore_calls tr)
           \<and> out = Fatal (Some x) ''restore for %s failed'' [ArgString (DirEntry_Name (de ! i))]
           \<and> last tr = Call_restoreAction (fst (restore_calls tr ! i)) (Some x))
       \<and> (out = Returns None \<longrightarrow>
             length (restore_calls tr) = length de \<and> (\<forall>cr \<in> set (restore_calls tr). snd cr = None))
       \<and> ((\<forall>d \<in> set de. DirEntry_Name d \<notin> set names)
            \<and> (\<forall>sc \<in> set (stat_calls tr). snd sc = None)
            \<and> (\<forall>cr \<in> set (restore_calls tr). snd cr = None) \<longrightarrow>
             length (stat_calls tr) = length de \<and> length (restore_calls tr) = length de
           \<and> out = Returns None)"
  using assms
proof (cases rule: restoreAction_shape)
  case (invalid sts)
  have rc: "restore_calls tr = []"
    unfolding invalid(1) by (simp add: restore_calls_append restore_calls_stat_events)
  have sc: "stat_calls tr = sts"
    unfolding invalid(1) by (simp add: stat_calls_append stat_calls_stat_events)
  have 1: "map fst (stat_calls tr) =
           map (\<lambda>d. filepath_Join e [backupDirectory c, DirEntry_Name d, ''backup.json''])
             (take (length (stat_calls tr)) de)"
    unfolding sc using invalid(2) by (simp add: manifest_path_def[abs_def])
  have 4: "out \<noteq> Returns None" using invalid(3) by auto
  have 5: "\<not> ((\<forall>d \<in> set de. DirEntry_Name d \<notin> set names)
            \<and> (\<forall>sc \<in> set (stat_calls tr). snd sc = None))"
    unfolding sc using invalid(4) by auto
  from 1 4 5 show ?thesis unfolding rc by simp
next
  case (valid sts rs)
  have rc: "restore_calls tr = rs"
    unfolding valid(1)
    by (simp add: restore_calls_append restore_calls_stat_events restore_calls_restore_events restoring_line_def)
  have sc: "stat_calls tr = sts"
    unfolding valid(1)
    by (simp add: stat_calls_append stat_calls_stat_events stat_calls_restore_events restoring_line_def)
  have "length sts = length de" using valid(2) by (metis length_map)
  then have 1: "map fst (stat_calls tr) =
           map (\<lambda>d. filepath_Join e [backupDirectory c, DirEntry_Name d, ''backup.json''])
             (take (length (stat_calls tr)) de)"
    unfolding sc using valid(2) by (simp add: manifest_path_def[abs_def])
  have 2: "map fst (restore_calls tr) =
           map (\<lambda>d. \<lparr> msgID = - 1, showProgress = False,
                      s_placementCluster = placementCluster c,
                      s_placementTags = placementTags c,
                      s_backupDirectory = filepath_Join e [backupDirectory c, DirEntry_Name d] \<rparr>)
             (take (length (restore_calls tr)) de)"
    unfolding rc using valid(5) by (simp add: restore_cmd_def[abs_def])
  have 3: "\<forall>i x. i < length rs \<and> snd (rs ! i) = Some x \<longrightarrow>
             Suc i = length rs
           \<and> out = Fatal (Some x) ''restore for %s failed'' [ArgString (DirEntry_Name (de ! i))]
           \<and> last tr = Call_restoreAction (fst (rs ! i)) (Some x)"
  proof (intro allI impI)
    fix i x assume a: "i < length rs \<and> snd (rs ! i) = Some x"
    with valid(6) have b: "Suc i = length rs"
      "out = Fatal (Some x) ''restore for %s failed'' [ArgString (DirEntry_Name (de ! i))]" by blast+
    from b(1) have ne: "rs \<noteq> []" by auto
    with b(1) have "last rs = rs ! i" by (metis diff_Suc_1 last_conv_nth)
    with a have "last rs = (fst (rs ! i), Some x)" by (simp add: prod_eq_iff)
    then have "last (restore_events rs) = Call_restoreAction (fst (rs ! i)) (Some x)"
      using ne by (simp add: restore_events_def last_map)
    moreover have "restore_events rs \<noteq> []" using ne by (simp add: restore_events_def)
    ultimately have "last tr = Call_restoreAction (fst (rs ! i)) (Some x)"
      unfolding valid(1) by simp
    with b show "Suc i = length rs
           \<and> out = Fatal (Some x) ''restore for %s failed'' [ArgString (DirEntry_Name (de ! i))]
           \<and> last tr = Call_restoreAction (fst (rs ! i)) (Some x)" by (intro conjI)
  qed
  have 4: "out = Returns None \<longrightarrow> length rs = length de \<and> (\<forall>cr \<in> set rs. snd cr = None)"
  proof
    assume o: "out = Returns None"
    have all: "\<forall>cr \<in> set rs. snd cr = None"
    proof
      fix cr assume "cr \<in> set rs"
      then obtain i where i: "i < length rs" "rs ! i = cr" by (auto simp add: in_set_conv_nth)
      show "snd cr = None"
      proof (cases "snd cr")
        case None then show ?thesis .
      next
        case (Some x)
        with i valid(6) have "out = Fatal (Some x) ''restore for %s failed'' [ArgString (DirEntry_Name (de ! i))]"
          by blast
        with o show ?thesis by simp
      qed
    qed
    with valid(7) show "length rs = length de \<and> (\<forall>cr \<in> set rs. snd cr = None)" by blast
  qed
  have 5: "(\<forall>d \<in> set de. DirEntry_Name d \<notin> set names)
            \<and> (\<forall>sc \<in> set (stat_calls tr). snd sc = None)
            \<and> (\<forall>cr \<in> set rs. snd cr = None) \<longrightarrow>
             length (stat_calls tr) = length de \<and> length rs = length de \<and> out = Returns None"
    using valid(7) \<open>length sts = length de\<close> unfolding sc by blast
  from 1 2 3 4 5 show ?thesis unfolding rc by (intro conjI)
qed

theorem restore_order_witness:
  "prepareHelper env_rfail [] = None
   \<and> mgr_StreamNames env_rfail [Call_prepareHelper None] = ([''EVENTS''], None)
   \<and> os_ReadDir env_rfail [Call_prepareHelper None, Call_StreamNames ([''EVENTS''], None)]
        (backupDirectory cmd_demo) = (de_demo, None)
   \<and> map (s_backupDirectory \<circ> fst) (restore_calls (snd (restoreAction env_rfail cmd_demo)))
        = [''bk/ORDERS'', ''bk/AUDIT'']
   \<and> snd (restore_calls (snd (restoreAction env_rfail cmd_demo)) ! 1) = Some (ErrorString ''stream exists'')
   \<and> fst (restoreAction env_rfail cmd_demo)
        = Fatal (Some (ErrorString ''stream exists'')) ''restore for %s failed'' [ArgString ''AUDIT'']
   \<and> filter (\<lambda>cr. snd cr \<noteq> None) (restore_calls (snd (restoreAction env_demo cmd_demo))) = []
   \<and> filter (\<lambda>sc. snd sc \<noteq> None) (stat_calls (snd (restoreAction env_demo cmd_demo))) = []
   \<and> length (restore_calls (snd (restoreAction env_demo cmd_demo))) = length de_demo
   \<and> fst (restoreAction env_demo cmd_demo) = Returns None"
proof -
  have h1: "restoreAction env_rfail cmd_demo
      = (fst (restoreAction env_rfail cmd_demo), snd (restoreAction env_rfail cmd_demo))" by simp
  have h2: "prepareHelper env_rfail [] = None" by (simp add: env_rfail_def env_demo_def)
  have h3: "mgr_StreamNames env_rfail [Call_prepareHelper None] = ([''EVENTS''], None)"
    by (simp add: env_rfail_def env_demo_def)
  have h4: "os_ReadDir env_rfail [Call_prepareHelper None, Call_StreamNames ([''EVENTS''], None)]
        (backupDirectory cmd_demo) = (de_demo, None)"
    by (simp add: env_rfail_def env_demo_def de_demo_def)
  have c: "map (s_backupDirectory \<circ> fst) (restore_calls (snd (restoreAction env_rfail cmd_demo)))
        = [''bk/ORDERS'', ''bk/AUDIT'']" by code_simp
  have i: "1 < length (restore_calls (snd (restoreAction env_rfail cmd_demo)))
      \<and> snd (restore_calls (snd (restoreAction env_rfail cmd_demo)) ! 1) = Some (ErrorString ''stream exists'')"
    by code_simp
  have d: "DirEntry_Name (de_demo ! 1) = ''AUDIT''" by (simp add: de_demo_def)
  from restore_order[OF h1 h2 h3 h4] i
  have "fst (restoreAction env_rfail cmd_demo)
        = Fatal (Some (ErrorString ''stream exists'')) ''restore for %s failed''
            [ArgString (DirEntry_Name (de_demo ! 1))]" by blast
  with d have f: "fst (restoreAction env_rfail cmd_demo)
        = Fatal (Some (ErrorString ''stream exists'')) ''restore for %s failed'' [ArgString ''AUDIT'']"
    by simp
  have g1: "restoreAction env_demo cmd_demo
      = (fst (restoreAction env_demo cmd_demo), snd (restoreAction env_demo cmd_demo))" by simp
  have g2: "prepareHelper env_demo [] = None" by (simp add: env_demo_def)
  have g3: "mgr_StreamNames env_demo [Call_prepareHelper None] = ([''EVENTS''], None)"
    by (simp add: env_demo_def)
  have g4: "os_ReadDir env_demo [Call_prepareHelper None, Call_StreamNames ([''EVENTS''], None)]
        (backupDirectory cmd_demo) = (de_demo, None)"
    by (simp add: env_demo_def de_demo_def)
  have n1: "\<forall>d \<in> set de_demo. DirEntry_Name d \<notin> set [''EVENTS'']" by (simp add: de_demo_def)
  have n2: "filter (\<lambda>sc. snd sc \<noteq> None) (stat_calls (snd (restoreAction env_demo cmd_demo))) = []"
    by code_simp
  have n3: "filter (\<lambda>cr. snd cr \<noteq> None) (restore_calls (snd (restoreAction env_demo cmd_demo))) = []"
    by code_simp
  from n2 have m2: "\<forall>sc \<in> set (stat_calls (snd (restoreAction env_demo cmd_demo))). snd sc = None"
    by (simp add: filter_empty_conv)
  from n3 have m3: "\<forall>cr \<in> set (restore_calls (snd (restoreAction env_demo cmd_demo))). snd cr = None"
    by (simp add: filter_empty_conv)
  from restore_order[OF g1 g2 g3 g4] n1 m2 m3
  have all: "length (restore_calls (snd (restoreAction env_demo cmd_demo))) = length de_demo
      \<and> fst (restoreAction env_demo cmd_demo) = Returns None" by blast
  from h2 h3 h4 c i f n3 n2 all show ?thesis by (intro conjI) (elim conjE, assumption)+
qed

text \<open>
  Claim C5. The check of \<open>IsDir\<close> hands the error variable of \<open>os.ReadDir\<close> to
  \<open>fisk.FatalIfError\<close>; that variable is nil at this point, so the check ends no
  run. For a root whose only entry is not a directory while \<open>os.Stat\<close> of its
  \<open>backup.json\<close> succeeds (a symbolic link to an artifact directory), the run
  passes validation, calls the restore primitive on the entry and returns nil.
\<close>

theorem restore_accepts_non_directory:
  "os_ReadDir env_symlink [Call_prepareHelper None, Call_StreamNames ([''EVENTS''], None)] ''bk''
     = ([\<lparr> DirEntry_Name = ''ORDERS'', IsDir = False \<rparr>], None)
   \<and> fst (restoreAction env_symlink cmd_demo) = Returns None
   \<and> restore_calls (snd (restoreAction env_symlink cmd_demo)) =
       [(\<lparr> msgID = - 1, showProgress = False, s_placementCluster = ''east'',
           s_placementTags = [''ssd''], s_backupDirectory = ''bk/ORDERS'' \<rparr>, None)]"
  by code_simp

end
